theory Spec2Isabelle
  imports Complex_Main "HOL-Library.Log_Nat" "HOL-Library.Sublist"
begin

section \<open>The Telegram Mega download bot (main.py)\<close>

text \<open>
  The bot is a single Python file: a class \<open>TelegramMegaDownloadBot\<close> with one
  pure method (\<open>format_size\<close>), one orchestration method
  (\<open>download_from_public_link\<close>), four handlers registered by \<open>run_bot\<close>, and the
  start-up block under \<open>__main__\<close>.

  Modelling conventions.
  \<^item> A Python \<open>str\<close> is a \<open>string\<close>; one \<open>char\<close> stands for one code point below 256.
  \<^item> The chat texts contain characters outside that range, so a chat text is a value of the
    datatype \<open>msg\<close>: one constructor per literal or f-string of the source, the
    interpolated values as arguments.
  \<^item> An exception is a value \<open>Error m\<close>, where \<open>m\<close> is what \<open>str(e)\<close> gives.
  \<^item> The chat platform, the cloud-storage client and the operating system are external. The
    state \<open>world\<close> holds the local files and the list of calls issued so far, oldest first.
    What an external call returns comes from an \<open>env\<close>, a record of functions of the world
    in which the call is issued, so two calls with the same arguments may end differently.
  \<^item> In a handler, every call on the chat platform, the cloud storage or the file system
    may raise. Inside a \<open>try\<close> block the model follows the \<open>except\<close> branch. Outside any
    \<open>try\<close> block the exception leaves the handler: the world records it in \<open>raised\<close>,
    and nothing more of the handler runs. Logging, sleeping and the calls of start-up are
    taken to return.
\<close>

subsection \<open>Python values\<close>

datatype error = Error string

text \<open>\<open>size_bytes\<close> starts as an \<open>int\<close> and becomes a \<open>float\<close> at the first division. Every
  float that \<open>format_size\<close> meets is a rational number, kept exactly.\<close>

datatype number = PyInt int | PyFloat rat

subsection \<open>Strings\<close>

text \<open>\<open>str.isspace\<close> on the code points below 256.\<close>

definition isspace :: "char \<Rightarrow> bool" where
  "isspace c = (of_char c \<in> {9, 10, 11, 12, 13, 28, 29, 30, 31, 32, 133, 160 :: nat})"

definition strip :: "string \<Rightarrow> string" where
  "strip s = rev (dropWhile isspace (rev (dropWhile isspace s)))"

fun startswith :: "string \<Rightarrow> string \<Rightarrow> bool" where
  "startswith s [] = True"
| "startswith [] (p # ps) = False"
| "startswith (c # cs) (p # ps) = (c = p \<and> startswith cs ps)"

definition endswith :: "string \<Rightarrow> string \<Rightarrow> bool" where
  "endswith s ending = startswith (rev s) (rev ending)"

text \<open>\<open>os.path.basename\<close>: what follows the last slash.\<close>

definition basename :: "string \<Rightarrow> string" where
  "basename p = rev (takeWhile (\<lambda>c. c \<noteq> CHR ''/'') (rev p))"

definition digit_char :: "nat \<Rightarrow> char" where
  "digit_char d = char_of (48 + d)"

text \<open>The decimal digits of a natural number, as \<open>str\<close> prints them.\<close>

fun str_nat :: "nat \<Rightarrow> string" where
  "str_nat n = (if n < 10 then [digit_char n] else str_nat (n div 10) @ [digit_char (n mod 10)])"

declare str_nat.simps [simp del]

text \<open>A file opened in text mode is read with universal newlines: a carriage return
  followed by a line feed, and a carriage return alone, are read as one line feed.\<close>

fun universal_newlines :: "string \<Rightarrow> string" where
  "universal_newlines [] = []"
| "universal_newlines [c] = (if c = CHR 0x0D then [CHR 0x0A] else [c])"
| "universal_newlines (c # d # cs) =
     (if c = CHR 0x0D
      then (if d = CHR 0x0A then CHR 0x0A # universal_newlines cs
            else CHR 0x0A # universal_newlines (d # cs))
      else c # universal_newlines (d # cs))"

text \<open>Iterating over a text file yields its lines, each with its newline; a last line
  without a newline is yielded as it is, and an empty file yields nothing.\<close>

fun lines_from :: "string \<Rightarrow> string \<Rightarrow> string list" where
  "lines_from cur [] = (if cur = [] then [] else [cur])"
| "lines_from cur (c # cs) =
     (if c = CHR 0x0A then (cur @ [c]) # lines_from [] cs else lines_from (cur @ [c]) cs)"

definition file_lines :: "string \<Rightarrow> string list" where
  "file_lines decoded = lines_from [] (universal_newlines decoded)"

subsection \<open>format_size (lines 97-103)\<close>

text \<open>Rounding to the nearest integer, ties to the even one: the rounding of the conversion
  of an \<open>int\<close> to a \<open>float\<close> and of the format \<open>.2f\<close>.\<close>

definition round_half_even :: "rat \<Rightarrow> int" where
  "round_half_even x =
     (let f = \<lfloor>x\<rfloor>; d = x - of_int f
      in if d < 1 / 2 then f else if 1 / 2 < d then f + 1 else if even f then f else f + 1)"

text \<open>The conversion of an \<open>int\<close> to a double: exact up to 53 bits, rounded to 53
  significant bits beyond, \<open>OverflowError\<close> when the rounded value reaches \<open>2 ^ 1024\<close>.\<close>

definition int_to_float :: "int \<Rightarrow> error + rat" where
  "int_to_float n =
     (let a = \<bar>n\<bar>; e = bitlen a - 53
      in if e \<le> 0 then Inr (of_int n)
         else let m = round_half_even (of_int a / 2 ^ nat e) * 2 ^ nat e
              in if 2 ^ 1024 \<le> m then Inl (Error ''int too large to convert to float'')
                 else Inr (of_int (sgn n * m)))"

text \<open>The format \<open>.2f\<close> of a float: the exact value rounded to hundredths.\<close>

definition format_2f :: "rat \<Rightarrow> string" where
  "format_2f x =
     (let h = nat (round_half_even (\<bar>x\<bar> * 100))
      in (if x < 0 then ''-'' else []) @ str_nat (h div 100) @ ''.'' @
         [digit_char (h mod 100 div 10), digit_char (h mod 10)])"

text \<open>\<open>size_bytes < 1024.0\<close>: the comparison of an \<open>int\<close> with a float is exact.\<close>

definition lt_1024 :: "number \<Rightarrow> bool" where
  "lt_1024 v = (case v of PyInt n \<Rightarrow> n < 1024 | PyFloat x \<Rightarrow> x < 1024)"

text \<open>\<open>size_bytes /= 1024.0\<close>: an \<open>int\<close> is converted first; dividing a float of at least
  1024 by a power of two is exact.\<close>

definition div_1024 :: "number \<Rightarrow> error + number" where
  "div_1024 v =
     (case v of
        PyInt n \<Rightarrow> (case int_to_float n of Inl e \<Rightarrow> Inl e | Inr x \<Rightarrow> Inr (PyFloat (x / 1024)))
      | PyFloat x \<Rightarrow> Inr (PyFloat (x / 1024)))"

definition fmt_2f :: "number \<Rightarrow> error + string" where
  "fmt_2f v =
     (case v of
        PyInt n \<Rightarrow> (case int_to_float n of Inl e \<Rightarrow> Inl e | Inr x \<Rightarrow> Inr (format_2f x))
      | PyFloat x \<Rightarrow> Inr (format_2f x))"

text \<open>The \<open>for\<close> loop over the units, and the \<open>return\<close> after it.\<close>

fun format_loop :: "number \<Rightarrow> string list \<Rightarrow> error + string" where
  "format_loop size_bytes [] =
     (case fmt_2f size_bytes of Inl e \<Rightarrow> Inl e | Inr s \<Rightarrow> Inr (s @ '' PB''))"
| "format_loop size_bytes (unit # units) =
     (if lt_1024 size_bytes
      then (case fmt_2f size_bytes of Inl e \<Rightarrow> Inl e | Inr s \<Rightarrow> Inr (s @ '' '' @ unit))
      else (case div_1024 size_bytes of Inl e \<Rightarrow> Inl e | Inr v \<Rightarrow> format_loop v units))"

definition format_size :: "int \<Rightarrow> error + string" where
  "format_size size_bytes =
     format_loop (PyInt size_bytes) [''B'', ''KB'', ''MB'', ''GB'', ''TB'']"

subsection \<open>Chat texts, external calls, the world\<close>

text \<open>The texts the bot sends, edits, logs or prints, in the order of the source.\<close>

datatype msg =
    ProcessingLink string
  | InvalidLink
  | StartingDownload string string
  | DownloadCompleted string string
  | DownloadFailed string
  | NotAuthorized
  | WelcomeText
  | UsageExample
  | ProvideValidLink
  | CaptionCompleted string
  | ErrorSendingFile string
  | SendValidLink
  | NoValidLinks
  | FoundLinks nat
  | Downloading nat nat
  | CaptionItem nat nat string
  | ErrorSendingFileNo nat string
  | BatchCompleted
  | UploadTextFile
  | BotInitialized
  | BotRunning
  | PleaseSetToken
  | SetupStep1
  | SetupStep2
  | SetupStep3

text \<open>What \<open>run_bot\<close> registers a handler for.\<close>

datatype trigger = Command string | TextNotCommand | AnyDocument

text \<open>The calls the program issues on its collaborators.\<close>

datatype call =
    SendMessage int msg
  | EditText msg
  | ReplyText msg
  | ReplyDocument string string msg
  | GetPublicFileInfo string
  | DownloadFromUrl string string string
  | OpenFile string
  | RemoveFile string
  | GetFile string
  | DownloadToDrive string
  | Sleep nat
  | LogInfo msg
  | LogError msg
  | Print msg
  | Mkdir string
  | NewMega
  | BuildApplication string
  | AddHandler trigger
  | RunPolling

text \<open>The local files with their bytes, the calls issued so far, and the exception that
  has left the handler, if one has.\<close>

record world =
  files :: "string \<rightharpoonup> string"
  calls :: "call list"
  raised :: "error option"

text \<open>The dictionary \<open>get_public_file_info\<close> returns, and the uploaded document of an
  update: its declared media type and its name (both optional), its identifier and its
  content, the bytes that \<open>download_to_drive\<close> writes.\<close>

record file_info =
  info_name :: string
  info_size :: int

record document =
  mime_type :: "string option"
  file_name :: "string option"
  file_id :: string
  content :: string

text \<open>The outcome of each external call. \<open>None\<close> from a \<open>_raises\<close> function means that
  the call returns. The metadata lookup returns a dictionary, or a falsy value (\<open>None\<close>)
  for a link it cannot resolve. A download that returns gives the path it wrote and the
  bytes written there. \<open>decode\<close> is the codec of \<open>open(temp_file, 'r')\<close>: the text of the
  bytes, or \<open>UnicodeDecodeError\<close>.\<close>

record env =
  send_message_raises :: "world \<Rightarrow> int \<Rightarrow> msg \<Rightarrow> error option"
  edit_text_raises :: "world \<Rightarrow> msg \<Rightarrow> error option"
  get_public_file_info :: "world \<Rightarrow> string \<Rightarrow> error + file_info option"
  download_from_url :: "world \<Rightarrow> string \<Rightarrow> string \<Rightarrow> string \<Rightarrow> error + string \<times> string"
  open_raises :: "world \<Rightarrow> string \<Rightarrow> error option"
  reply_document_raises :: "world \<Rightarrow> string \<Rightarrow> string \<Rightarrow> msg \<Rightarrow> error option"
  remove_raises :: "world \<Rightarrow> string \<Rightarrow> error option"
  reply_text_raises :: "world \<Rightarrow> msg \<Rightarrow> error option"
  get_file_raises :: "world \<Rightarrow> string \<Rightarrow> error option"
  download_to_drive_raises :: "world \<Rightarrow> string \<Rightarrow> error option"
  decode :: "string \<Rightarrow> error + string"

text \<open>The object \<open>self\<close>.\<close>

record bot =
  download_dir :: string

definition issue :: "call \<Rightarrow> world \<Rightarrow> world" where
  "issue c w = w\<lparr>calls := calls w @ [c]\<rparr>"

text \<open>An exception that no \<open>try\<close> block catches leaves the handler; a statement runs
  only if none has.\<close>

definition raise_from :: "error option \<Rightarrow> world \<Rightarrow> world" where
  "raise_from r w = (case r of None \<Rightarrow> w | Some e \<Rightarrow> w\<lparr>raised := Some e\<rparr>)"

definition unless_raised :: "world \<Rightarrow> (world \<Rightarrow> world) \<Rightarrow> world" where
  "unless_raised w f = (if raised w = None then f w else w)"

text \<open>\<open>update.message.reply_text\<close> outside a \<open>try\<close> block.\<close>

definition reply_text :: "env \<Rightarrow> msg \<Rightarrow> world \<Rightarrow> world" where
  "reply_text ev m w = raise_from (reply_text_raises ev w m) (issue (ReplyText m) w)"

definition no_such_file :: "string \<Rightarrow> error" where
  "no_such_file p = Error (''[Errno 2] No such file or directory: '' @ [CHR 0x27] @ p @ [CHR 0x27])"

definition AUTHORIZED_USERS :: "int list" where
  "AUTHORIZED_USERS = [123456789]"

definition BOT_TOKEN :: string where
  "BOT_TOKEN = ''YOUR_BOT_TOKEN_HERE''"

subsection \<open>download_from_public_link (lines 37-95)\<close>

text \<open>Lines 56-88: the \<open>try\<close> block after \<open>send_message\<close> has returned. \<open>Inl e\<close> is an
  exception on its way to the \<open>except\<close> clause. The f-string of line 67 calls
  \<open>format_size\<close> before the message is edited.\<close>

definition download_steps :: "env \<Rightarrow> bot \<Rightarrow> string \<Rightarrow> world \<Rightarrow> (error + string option) \<times> world" where
  "download_steps ev self mega_link w =
     (let w1 = issue (GetPublicFileInfo mega_link) w in
      case get_public_file_info ev w mega_link of
        Inl e \<Rightarrow> (Inl e, w1)
      | Inr None \<Rightarrow>
          (let w2 = issue (EditText InvalidLink) w1 in
           case edit_text_raises ev w1 InvalidLink of
             Some e \<Rightarrow> (Inl e, w2)
           | None \<Rightarrow> (Inr None, w2))
      | Inr (Some file_info) \<Rightarrow>
          (let file_name = info_name file_info; file_size = info_size file_info in
           case format_size file_size of
             Inl e \<Rightarrow> (Inl e, w1)
           | Inr size_text \<Rightarrow>
               (let w2 = issue (EditText (StartingDownload file_name size_text)) w1 in
                case edit_text_raises ev w1 (StartingDownload file_name size_text) of
                  Some e \<Rightarrow> (Inl e, w2)
                | None \<Rightarrow>
                    (let w3 = issue (DownloadFromUrl mega_link (download_dir self) file_name) w2 in
                     case download_from_url ev w2 mega_link (download_dir self) file_name of
                       Inl e \<Rightarrow> (Inl e, w3)
                     | Inr (downloaded_file, bytes) \<Rightarrow>
                         (let w4 = w3\<lparr>files := (files w3)(downloaded_file \<mapsto> bytes)\<rparr>;
                              w5 = issue (EditText (DownloadCompleted file_name downloaded_file)) w4
                          in case edit_text_raises ev w4 (DownloadCompleted file_name downloaded_file) of
                               Some e \<Rightarrow> (Inl e, w5)
                             | None \<Rightarrow> (Inr (Some downloaded_file), w5))))))"

text \<open>The whole method. When \<open>send_message\<close> raises, \<open>message\<close> is not among the locals
  and the error is only logged; otherwise the \<open>except\<close> clause logs the error and edits the
  progress message. That edit (line 94) is outside the \<open>try\<close> block: if it raises, the
  exception leaves the method and its caller, and the result \<open>None\<close> is never used.\<close>

definition download_from_public_link ::
  "env \<Rightarrow> bot \<Rightarrow> string \<Rightarrow> int \<Rightarrow> world \<Rightarrow> string option \<times> world" where
  "download_from_public_link ev self mega_link chat_id w =
     (let w1 = issue (SendMessage chat_id (ProcessingLink mega_link)) w in
      case send_message_raises ev w chat_id (ProcessingLink mega_link) of
        Some (Error e) \<Rightarrow> (None, issue (LogError (DownloadFailed e)) w1)
      | None \<Rightarrow>
          (case download_steps ev self mega_link w1 of
             (Inr r, w2) \<Rightarrow> (r, w2)
           | (Inl (Error e), w2) \<Rightarrow>
               (let w3 = issue (LogError (DownloadFailed e)) w2
                in (None, raise_from (edit_text_raises ev w3 (DownloadFailed e))
                            (issue (EditText (DownloadFailed e)) w3)))))"

subsection \<open>Sending a downloaded file back (lines 148-159, 174-185, 220-229)\<close>

text \<open>The body of the \<open>try\<close> block that the three handlers share: open the file, reply
  with the document, remove the file. \<open>open\<close> and \<open>os.remove\<close> raise for a path that does
  not exist. The handlers differ in the caption and in the text of the error reply. The
  error reply of the \<open>except\<close> clause is outside the \<open>try\<close> block.\<close>

definition try_send :: "env \<Rightarrow> (string \<Rightarrow> msg) \<Rightarrow> string \<Rightarrow> world \<Rightarrow> (error + unit) \<times> world" where
  "try_send ev caption downloaded_file w =
     (let w1 = issue (OpenFile downloaded_file) w in
      if files w downloaded_file = None then (Inl (no_such_file downloaded_file), w1)
      else case open_raises ev w downloaded_file of
        Some e \<Rightarrow> (Inl e, w1)
      | None \<Rightarrow>
          (let filename = basename downloaded_file;
               w2 = issue (ReplyDocument downloaded_file filename (caption filename)) w1
           in case reply_document_raises ev w1 downloaded_file filename (caption filename) of
                Some e \<Rightarrow> (Inl e, w2)
              | None \<Rightarrow>
                  (let w3 = issue (RemoveFile downloaded_file) w2 in
                   if files w2 downloaded_file = None then (Inl (no_such_file downloaded_file), w3)
                   else case remove_raises ev w2 downloaded_file of
                     Some e \<Rightarrow> (Inl e, w3)
                   | None \<Rightarrow> (Inr (), w3\<lparr>files := (files w3)(downloaded_file := None)\<rparr>))))"

definition send_file :: "env \<Rightarrow> (string \<Rightarrow> msg) \<Rightarrow> (string \<Rightarrow> msg) \<Rightarrow> string \<Rightarrow> world \<Rightarrow> world" where
  "send_file ev caption failure downloaded_file w =
     (case try_send ev caption downloaded_file w of
        (Inr u, w') \<Rightarrow> w'
      | (Inl (Error e), w') \<Rightarrow> reply_text ev (failure e) w')"

text \<open>\<open>if downloaded_file:\<close> the block runs when the result is neither \<open>None\<close> nor
  the empty string.\<close>

definition when_downloaded :: "string option \<Rightarrow> (string \<Rightarrow> world \<Rightarrow> world) \<Rightarrow> world \<Rightarrow> world" where
  "when_downloaded r f w = (case r of None \<Rightarrow> w | Some p \<Rightarrow> if p = [] then w else f p w)"

subsection \<open>The handlers (lines 105-236)\<close>

definition start_command :: "env \<Rightarrow> int \<Rightarrow> world \<Rightarrow> world" where
  "start_command ev user_id w =
     (if user_id \<notin> set AUTHORIZED_USERS then reply_text ev NotAuthorized w
      else reply_text ev WelcomeText w)"

text \<open>In \<open>download_command\<close> and \<open>handle_message\<close> nothing follows the orchestrator but the
  block for a downloaded file, and when the exception of line 94 is on its way out the
  orchestrator has given \<open>None\<close>.\<close>

definition download_command :: "env \<Rightarrow> bot \<Rightarrow> int \<Rightarrow> int \<Rightarrow> string list \<Rightarrow> world \<Rightarrow> world" where
  "download_command ev self user_id chat_id args w =
     (if user_id \<notin> set AUTHORIZED_USERS then reply_text ev NotAuthorized w
      else case args of
        [] \<Rightarrow> reply_text ev UsageExample w
      | mega_link # _ \<Rightarrow>
          if \<not> startswith mega_link ''https://mega.nz/'' then reply_text ev ProvideValidLink w
          else (case download_from_public_link ev self mega_link chat_id w of
                  (downloaded_file, w1) \<Rightarrow>
                    when_downloaded downloaded_file
                      (send_file ev CaptionCompleted ErrorSendingFile) w1))"

definition handle_message :: "env \<Rightarrow> bot \<Rightarrow> int \<Rightarrow> int \<Rightarrow> string \<Rightarrow> world \<Rightarrow> world" where
  "handle_message ev self user_id chat_id message_text w =
     (if user_id \<notin> set AUTHORIZED_USERS then reply_text ev NotAuthorized w
      else if startswith message_text ''https://mega.nz/''
      then (case download_from_public_link ev self message_text chat_id w of
              (downloaded_file, w1) \<Rightarrow>
                when_downloaded downloaded_file
                  (send_file ev CaptionCompleted ErrorSendingFile) w1)
      else reply_text ev SendValidLink w)"

text \<open>Line 205: the list comprehension over the lines of the temporary file.\<close>

fun read_links :: "string list \<Rightarrow> string list" where
  "read_links [] = []"
| "read_links (line # f) =
     (if strip line \<noteq> [] \<and> startswith line ''https://mega.nz/''
      then strip line # read_links f else read_links f)"

text \<open>Lines 217-232: the body of the loop for the link at position \<open>i\<close> of \<open>n\<close>. The
  announcement, the edit of line 94 inside the orchestrator and the error reply of line 229
  are outside any \<open>try\<close> block.\<close>

definition batch_item :: "env \<Rightarrow> bot \<Rightarrow> int \<Rightarrow> nat \<Rightarrow> nat \<Rightarrow> string \<Rightarrow> world \<Rightarrow> world" where
  "batch_item ev self chat_id n i link w =
     unless_raised (reply_text ev (Downloading i n) w) (\<lambda>w1.
       case download_from_public_link ev self link chat_id w1 of
         (downloaded_file, w2) \<Rightarrow>
           unless_raised w2 (\<lambda>w2.
             unless_raised
               (when_downloaded downloaded_file
                  (send_file ev (CaptionItem i n) (ErrorSendingFileNo i)) w2)
               (issue (Sleep 2))))"

text \<open>Lines 216-232: the loop over \<open>enumerate(links, 1)\<close>; \<open>n\<close> is \<open>len(links)\<close> and \<open>i\<close>
  the position of the first link left.\<close>

fun batch_loop :: "env \<Rightarrow> bot \<Rightarrow> int \<Rightarrow> nat \<Rightarrow> nat \<Rightarrow> string list \<Rightarrow> world \<Rightarrow> world" where
  "batch_loop ev self chat_id n i [] w = w"
| "batch_loop ev self chat_id n i (link # rest) w =
     unless_raised (batch_item ev self chat_id n i link w)
       (batch_loop ev self chat_id n (Suc i) rest)"

text \<open>Lines 209-234: what \<open>handle_document\<close> does with the links it has read.\<close>

definition process_links :: "env \<Rightarrow> bot \<Rightarrow> int \<Rightarrow> string list \<Rightarrow> world \<Rightarrow> world" where
  "process_links ev self chat_id links w =
     (if links = [] then reply_text ev NoValidLinks w
      else
        unless_raised (reply_text ev (FoundLinks (length links)) w) (\<lambda>w1.
          unless_raised (batch_loop ev self chat_id (length links) 1 links w1)
            (reply_text ev BatchCompleted)))"

text \<open>Lines 199-207: fetching the document to the temporary file, reading its lines, and
  removing it. \<open>get_file\<close>, \<open>download_to_drive\<close>, the read (which decodes) and
  \<open>os.remove\<close> are outside any \<open>try\<close> block.\<close>

definition get_file :: "env \<Rightarrow> string \<Rightarrow> world \<Rightarrow> world" where
  "get_file ev fid w = raise_from (get_file_raises ev w fid) (issue (GetFile fid) w)"

definition download_to_drive :: "env \<Rightarrow> string \<Rightarrow> string \<Rightarrow> world \<Rightarrow> world" where
  "download_to_drive ev temp_file bytes w =
     (let w1 = issue (DownloadToDrive temp_file) w in
      case download_to_drive_raises ev w temp_file of
        Some e \<Rightarrow> w1\<lparr>raised := Some e\<rparr>
      | None \<Rightarrow> w1\<lparr>files := (files w1)(temp_file \<mapsto> bytes)\<rparr>)"

definition read_lines :: "env \<Rightarrow> string \<Rightarrow> world \<Rightarrow> (error + string list) \<times> world" where
  "read_lines ev temp_file w =
     (let w1 = issue (OpenFile temp_file) w in
      case files w temp_file of
        None \<Rightarrow> (Inl (no_such_file temp_file), w1)
      | Some bytes \<Rightarrow>
          (case open_raises ev w temp_file of
             Some e \<Rightarrow> (Inl e, w1)
           | None \<Rightarrow>
               (case decode ev bytes of
                  Inl e \<Rightarrow> (Inl e, w1)
                | Inr decoded \<Rightarrow> (Inr (file_lines decoded), w1))))"

definition remove_file :: "env \<Rightarrow> string \<Rightarrow> world \<Rightarrow> world" where
  "remove_file ev temp_file w =
     (let w1 = issue (RemoveFile temp_file) w in
      if files w temp_file = None then w1\<lparr>raised := Some (no_such_file temp_file)\<rparr>
      else case remove_raises ev w temp_file of
        Some e \<Rightarrow> w1\<lparr>raised := Some e\<rparr>
      | None \<Rightarrow> w1\<lparr>files := (files w1)(temp_file := None)\<rparr>)"

text \<open>Line 197: the test of the document. The name is looked at only when the media type
  is not \<open>text/plain\<close>, and a document without a name then has no \<open>endswith\<close>.\<close>

definition text_document :: "document \<Rightarrow> error + bool" where
  "text_document doc =
     (if mime_type doc = Some ''text/plain'' then Inr True
      else case file_name doc of
        None \<Rightarrow> Inl (Error ''NoneType object has no attribute endswith'')
      | Some name \<Rightarrow> Inr (endswith name ''.txt''))"

definition handle_document :: "env \<Rightarrow> bot \<Rightarrow> int \<Rightarrow> int \<Rightarrow> document \<Rightarrow> world \<Rightarrow> world" where
  "handle_document ev self user_id chat_id doc w =
     (if user_id \<notin> set AUTHORIZED_USERS then reply_text ev NotAuthorized w
      else case text_document doc of
        Inl e \<Rightarrow> w\<lparr>raised := Some e\<rparr>
      | Inr is_text \<Rightarrow>
          if is_text then
            (let temp_file = ''temp_'' @ file_id doc @ ''.txt'' in
             unless_raised (get_file ev (file_id doc) w) (\<lambda>w1.
               unless_raised (download_to_drive ev temp_file (content doc) w1) (\<lambda>w2.
                 case read_lines ev temp_file w2 of
                   (Inl e, w3) \<Rightarrow> w3\<lparr>raised := Some e\<rparr>
                 | (Inr f, w3) \<Rightarrow>
                     unless_raised (remove_file ev temp_file w3)
                       (process_links ev self chat_id (read_links f)))))
          else reply_text ev UploadTextFile w)"

subsection \<open>Start-up (lines 14-35, 238-266)\<close>

text \<open>\<open>__init__\<close> with the default directory, \<open>run_bot\<close>, and the block under
  \<open>__main__\<close> as a function of the configured token.\<close>

definition init :: "string \<Rightarrow> world \<Rightarrow> bot \<times> world" where
  "init dir w =
     (\<lparr>download_dir = dir\<rparr>,
      issue (LogInfo BotInitialized) (issue NewMega (issue (Mkdir dir) w)))"

definition run_bot :: "bot \<Rightarrow> string \<Rightarrow> world \<Rightarrow> world" where
  "run_bot self token w =
     (let w1 = issue (BuildApplication token) w;
          w2 = issue (AddHandler (Command ''start'')) w1;
          w3 = issue (AddHandler (Command ''download'')) w2;
          w4 = issue (AddHandler TextNotCommand) w3;
          w5 = issue (AddHandler AnyDocument) w4;
          w6 = issue (LogInfo BotRunning) w5
      in issue RunPolling w6)"

definition main :: "string \<Rightarrow> world \<Rightarrow> world" where
  "main token w =
     (if token = ''YOUR_BOT_TOKEN_HERE''
      then issue (Print SetupStep3) (issue (Print SetupStep2)
             (issue (Print SetupStep1) (issue (Print PleaseSetToken) w)))
      else (case init ''downloads'' w of (self, w1) \<Rightarrow> run_bot self token w1))"

text \<open>The events that reach the four registered handlers, and the handler each one runs.\<close>

datatype event =
    StartCommand
  | DownloadCommand "string list"
  | TextMessage string
  | DocumentUpload document

definition dispatch :: "env \<Rightarrow> bot \<Rightarrow> int \<Rightarrow> int \<Rightarrow> event \<Rightarrow> world \<Rightarrow> world" where
  "dispatch ev self user_id chat_id e w =
     (case e of
        StartCommand \<Rightarrow> start_command ev user_id w
      | DownloadCommand args \<Rightarrow> download_command ev self user_id chat_id args w
      | TextMessage message_text \<Rightarrow> handle_message ev self user_id chat_id message_text w
      | DocumentUpload doc \<Rightarrow> handle_document ev self user_id chat_id doc w)"

subsection \<open>Observations on the list of calls\<close>

text \<open>The calls that a run added to the world it started in.\<close>

definition new_calls :: "world \<Rightarrow> world \<Rightarrow> call list" where
  "new_calls w w' = drop (length (calls w)) (calls w')"

text \<open>The calls that \<open>download_from_public_link\<close> issues for a link after \<open>send_message\<close>:
  the lookup of that link, edits of the progress message, the download of that link into
  the directory of the bot, the log of an error. The path that the last of them reports as
  downloaded, if it is the notice of completion.\<close>

definition orchestrator_call :: "bot \<Rightarrow> string \<Rightarrow> call \<Rightarrow> bool" where
  "orchestrator_call self link c =
     (case c of GetPublicFileInfo l \<Rightarrow> l = link | EditText m \<Rightarrow> True
      | DownloadFromUrl l d n \<Rightarrow> l = link \<and> d = download_dir self
      | LogError m \<Rightarrow> True | _ \<Rightarrow> False)"

definition completed_path :: "call list \<Rightarrow> string option" where
  "completed_path d =
     (if d = [] then None
      else case last d of
        EditText m \<Rightarrow> (case m of DownloadCompleted name p \<Rightarrow> Some p | _ \<Rightarrow> None)
      | _ \<Rightarrow> None)"

text \<open>The calls of the block that sends the file \<open>p\<close> back as item \<open>i\<close> of \<open>n\<close>.\<close>

definition relay_call :: "nat \<Rightarrow> nat \<Rightarrow> string \<Rightarrow> call \<Rightarrow> bool" where
  "relay_call i n p c =
     (case c of OpenFile q \<Rightarrow> q = p
      | ReplyDocument q f m \<Rightarrow> q = p \<and> f = basename p \<and> m = CaptionItem i n f
      | RemoveFile q \<Rightarrow> q = p
      | ReplyText m \<Rightarrow> (case m of ErrorSendingFileNo j e \<Rightarrow> j = i | _ \<Rightarrow> False)
      | _ \<Rightarrow> False)"





text \<open>Lines 199-204 of \<open>handle_document\<close>: the name of the temporary file; that the calls
  up to \<open>open\<close> return; the world when the file is open, and the world once it is
  removed.\<close>

definition temp_name :: "document \<Rightarrow> string" where
  "temp_name doc = ''temp_'' @ file_id doc @ ''.txt''"

definition opened_world :: "document \<Rightarrow> world \<Rightarrow> world" where
  "opened_world doc w =
     issue (OpenFile (temp_name doc))
       ((issue (DownloadToDrive (temp_name doc)) (issue (GetFile (file_id doc)) w))
          \<lparr>files := (files w)(temp_name doc \<mapsto> content doc)\<rparr>)"

definition removed_world :: "document \<Rightarrow> world \<Rightarrow> world" where
  "removed_world doc w =
     (issue (RemoveFile (temp_name doc)) (opened_world doc w))
       \<lparr>files := (files w)(temp_name doc := None)\<rparr>"

definition list_opened :: "env \<Rightarrow> document \<Rightarrow> world \<Rightarrow> bool" where
  "list_opened ev doc w \<longleftrightarrow>
     raised w = None \<and> get_file_raises ev w (file_id doc) = None \<and>
     download_to_drive_raises ev (issue (GetFile (file_id doc)) w) (temp_name doc) = None \<and>
     open_raises ev
       ((issue (DownloadToDrive (temp_name doc)) (issue (GetFile (file_id doc)) w))
          \<lparr>files := (files w)(temp_name doc \<mapsto> content doc)\<rparr>)
       (temp_name doc) = None"

text \<open>The unit suffix of a result (what follows the last blank) and its numeric part (what
  precedes the first blank), read as a number of hundredths.\<close>

definition unit_of :: "string \<Rightarrow> string" where
  "unit_of s = rev (takeWhile (\<lambda>c. c \<noteq> CHR '' '') (rev s))"

definition digit_value :: "char \<Rightarrow> nat" where
  "digit_value c = of_char c - 48"

definition read_nat :: "string \<Rightarrow> nat" where
  "read_nat s = foldl (\<lambda>a c. 10 * a + digit_value c) 0 s"

definition numeric_part :: "string \<Rightarrow> nat" where
  "numeric_part s =
     read_nat (filter (\<lambda>c. c \<noteq> CHR ''.'') (takeWhile (\<lambda>c. c \<noteq> CHR '' '') s))"

text \<open>A text file made of the given lines, each followed by a newline; and the batch in
  the words of the specification: the non-empty lines that pass the link validator.\<close>

definition text_of_lines :: "string list \<Rightarrow> string" where
  "text_of_lines ls = concat (map (\<lambda>l. l @ [CHR 0x0A]) ls)"

definition claimed_batch :: "string list \<Rightarrow> string list" where
  "claimed_batch ls = filter (\<lambda>l. l \<noteq> [] \<and> startswith l ''https://mega.nz/'') ls"

subsection \<open>Concrete worlds for the examples\<close>

text \<open>An environment in which every call returns: the link ending in \<open>BAD\<close> does not
  resolve, every other link is the file \<open>a.zip\<close> of 2048 bytes, and a download writes
  the file under the directory and the name it is given.\<close>

definition calm_env :: env where
  "calm_env =
     \<lparr>send_message_raises = (\<lambda>w c m. None),
      edit_text_raises = (\<lambda>w m. None),
      get_public_file_info =
        (\<lambda>w l. if l = ''https://mega.nz/file/BAD'' then Inr None
               else Inr (Some \<lparr>info_name = ''a.zip'', info_size = 2048\<rparr>)),
      download_from_url = (\<lambda>w l d n. Inr (d @ ''/'' @ n, ''data'')),
      open_raises = (\<lambda>w p. None),
      reply_document_raises = (\<lambda>w p f m. None),
      remove_raises = (\<lambda>w p. None),
      reply_text_raises = (\<lambda>w m. None),
      get_file_raises = (\<lambda>w fid. None),
      download_to_drive_raises = (\<lambda>w p. None),
      decode = Inr\<rparr>"

text \<open>The same environment, except that the upload of a document times out.\<close>

definition upload_fails_env :: env where
  "upload_fails_env = calm_env\<lparr>reply_document_raises := (\<lambda>w p f m. Some (Error ''Timed out''))\<rparr>"


text \<open>The same environment with the ASCII codec.\<close>

definition ascii_env :: env where
  "ascii_env =
     calm_env\<lparr>decode := (\<lambda>bytes. if list_all (\<lambda>c. of_char c < (128 :: nat)) bytes then Inr bytes
                                 else Inl (Error ''ascii codec cannot decode''))\<rparr>"

definition empty_world :: world where
  "empty_world = \<lparr>files = Map.empty, calls = [], raised = None\<rparr>"

definition default_bot :: bot where
  "default_bot = \<lparr>download_dir = ''downloads''\<rparr>"

definition one_file_world :: world where
  "one_file_world =
     \<lparr>files = [''downloads/a.zip'' \<mapsto> ''data''], calls = [], raised = None\<rparr>"

definition list_document :: document where
  "list_document =
     \<lparr>mime_type = Some ''text/plain'', file_name = Some ''links.txt'', file_id = ''F1'',
      content = [CHR 0x0A] @ ''https://mega.nz/file/AAA'' @ [CHR 0x0A] @ ''not-a-link'' @
                [CHR 0x0A] @ ''https://mega.nz/file/BBB''\<rparr>"


text \<open>An upload that is not text.\<close>

definition binary_document :: document where
  "binary_document =
     \<lparr>mime_type = None, file_name = Some ''links.txt'', file_id = ''F2'',
      content = [CHR 0xFF, CHR 0xFE, CHR 0x00]\<rparr>"

section \<open>Theorems\<close>

subsection \<open>Basic facts\<close>

lemma issue_calls [simp]: "calls (issue c w) = calls w @ [c]"
  by (simp add: issue_def)

lemma issue_files [simp]: "files (issue c w) = files w"
  by (simp add: issue_def)

lemma issue_raised [simp]: "raised (issue c w) = raised w"
  by (simp add: issue_def)

lemma raise_from_calls [simp]: "calls (raise_from r w) = calls w"
  by (simp add: raise_from_def split: option.splits)

lemma raise_from_files [simp]: "files (raise_from r w) = files w"
  by (simp add: raise_from_def split: option.splits)


lemma reply_text_calls [simp]: "calls (reply_text ev m w) = calls w @ [ReplyText m]"
  by (simp add: reply_text_def)

lemma reply_text_files [simp]: "files (reply_text ev m w) = files w"
  by (simp add: reply_text_def)



lemma startswith_iff_append: "startswith s p \<longleftrightarrow> (\<exists>t. s = p @ t)"
  by (induction s p rule: startswith.induct) auto

lemma startswith_iff_prefix: "startswith s p \<longleftrightarrow> prefix p s"
  by (simp add: startswith_iff_append prefix_def)

lemma authorized_example: "123456789 \<in> set AUTHORIZED_USERS"
  by (simp add: AUTHORIZED_USERS_def)

subsection \<open>The size formatter\<close>

text \<open>
  C6. The reference values of the size formatter: \<open>format_size(0)\<close> is \<open>0.00 B\<close>,
  \<open>format_size(1024)\<close> is \<open>1.00 KB\<close>, \<open>format_size(1536)\<close> is \<open>1.50 KB\<close> and
  \<open>format_size(1024**4)\<close> is \<open>1.00 TB\<close>: units of 1024, two decimal places.
\<close>

theorem format_size_reference_values:
  "format_size 0 = Inr ''0.00 B'' \<and>
   format_size 1024 = Inr ''1.00 KB'' \<and>
   format_size 1536 = Inr ''1.50 KB'' \<and>
   format_size (1024 ^ 4) = Inr ''1.00 TB''"
  by code_simp

subsection \<open>The size formatter: units and order\<close>

lemma round_half_even_bounds: "\<lfloor>x\<rfloor> \<le> round_half_even x \<and> round_half_even x \<le> \<lfloor>x\<rfloor> + 1"
  by (simp add: round_half_even_def Let_def)

lemma round_half_even_of_int [simp]: "round_half_even (of_int k) = k"
  by (simp add: round_half_even_def Let_def)

lemma round_half_even_mono:
  assumes "x \<le> y"
  shows "round_half_even x \<le> round_half_even y"
proof (cases "\<lfloor>x\<rfloor> < \<lfloor>y\<rfloor>")
  case True
  have "round_half_even x \<le> \<lfloor>x\<rfloor> + 1"
    using round_half_even_bounds by blast
  also have "\<dots> \<le> \<lfloor>y\<rfloor>"
    using True by simp
  also have "\<dots> \<le> round_half_even y"
    using round_half_even_bounds by blast
  finally show ?thesis .
next
  case False
  with assms have eq: "\<lfloor>x\<rfloor> = \<lfloor>y\<rfloor>"
    using floor_mono [of x y] by simp
  with assms have "x - of_int \<lfloor>x\<rfloor> \<le> y - of_int \<lfloor>y\<rfloor>"
    by simp
  with eq show ?thesis
    by (auto simp: round_half_even_def Let_def)
qed

lemma int_to_float_exact:
  assumes "0 \<le> n" "n < 2 ^ 53"
  shows "int_to_float n = Inr (of_int n)"
proof -
  have "bitlen n \<le> 53"
    using assms by (simp add: bitlen_le_iff_power)
  then show ?thesis
    using assms by (simp add: int_to_float_def Let_def)
qed

lemma int_to_float_rounded:
  assumes "0 \<le> n" "bitlen n = 53 + int k" "0 < k"
  shows "2 ^ (52 + k) \<le> n" "n < 2 ^ (53 + k)"
    "2 ^ 52 \<le> round_half_even (of_int n / 2 ^ k)"
    "round_half_even (of_int n / 2 ^ k) \<le> 2 ^ 53"
    "int_to_float n =
       (if 2 ^ 1024 \<le> round_half_even (of_int n / 2 ^ k) * 2 ^ k
        then Inl (Error ''int too large to convert to float'')
        else Inr (of_int (round_half_even (of_int n / 2 ^ k) * 2 ^ k)))"
proof -
  have "53 + int k \<le> bitlen n"
    using assms by simp
  then show lo: "2 ^ (52 + k) \<le> n"
    using assms(3) by (simp add: bitlen_ge_iff_power nat_add_distrib)
  have "bitlen n \<le> 53 + int k"
    using assms by simp
  then show hi: "n < 2 ^ (53 + k)"
    by (simp add: bitlen_le_iff_power nat_add_distrib)
  have "(of_int (2 ^ 52) :: rat) \<le> of_int n / 2 ^ k"
    using lo by (simp add: le_divide_eq power_add flip: of_int_le_iff [where 'a = rat])
  then have "round_half_even (of_int (2 ^ 52)) \<le> round_half_even (of_int n / 2 ^ k)"
    by (rule round_half_even_mono)
  then show "2 ^ 52 \<le> round_half_even (of_int n / 2 ^ k)"
    by (simp only: round_half_even_of_int)
  have "n \<le> 2 ^ 53 * 2 ^ k"
    using hi by (simp add: power_add)
  then have "(of_int n :: rat) \<le> of_int (2 ^ 53 * 2 ^ k)"
    by (simp only: of_int_le_iff)
  then have "of_int n / 2 ^ k \<le> (of_int (2 ^ 53) :: rat)"
    by (simp add: divide_le_eq)
  then have "round_half_even (of_int n / 2 ^ k) \<le> round_half_even (of_int (2 ^ 53))"
    by (rule round_half_even_mono)
  then show "round_half_even (of_int n / 2 ^ k) \<le> 2 ^ 53"
    by (simp only: round_half_even_of_int)
  have "0 < n"
    using lo by (smt (verit) zero_less_power)
  then show "int_to_float n =
       (if 2 ^ 1024 \<le> round_half_even (of_int n / 2 ^ k) * 2 ^ k
        then Inl (Error ''int too large to convert to float'')
        else Inr (of_int (round_half_even (of_int n / 2 ^ k) * 2 ^ k)))"
    using assms by (simp add: int_to_float_def Let_def)
qed


lemma bitlen_split:
  assumes "0 \<le> n"
  obtains "n < 2 ^ 53" | k where "0 < k" "bitlen n = 53 + int k"
proof (cases "n < 2 ^ 53")
  case True
  then show ?thesis ..
next
  case False
  then have "\<not> bitlen n \<le> 53"
    by (simp add: bitlen_le_iff_power)
  then have "0 < nat (bitlen n - 53)" "bitlen n = 53 + int (nat (bitlen n - 53))"
    by simp_all
  then show ?thesis ..
qed

lemma bitlen_mono:
  assumes "0 \<le> a" "a \<le> b"
  shows "bitlen a \<le> bitlen b"
proof (cases "0 < b")
  case True
  then have "b < 2 ^ nat (bitlen b)"
    using bitlen_bounds by blast
  with assms have "a < 2 ^ nat (bitlen b)"
    by simp
  then show ?thesis
    by (simp add: bitlen_le_iff_power bitlen_nonneg)
next
  case False
  with assms have "a = 0" "b = 0" by simp_all
  then show ?thesis by simp
qed

lemma int_to_float_mono:
  assumes "0 \<le> a" "a \<le> b" "int_to_float a = Inr x" "int_to_float b = Inr y"
  shows "x \<le> y"
proof -
  from assms have b0: "0 \<le> b" by simp
  from b0 show ?thesis
  proof (cases rule: bitlen_split)
    case 1
    with assms have "a < 2 ^ 53" by simp
    with 1 assms b0 show ?thesis
      by (simp add: int_to_float_exact)
  next
    case (2 kb)
    let ?mb = "round_half_even (of_int b / 2 ^ kb)"
    note B = int_to_float_rounded [OF b0 2(2) 2(1)]
    from B(5) assms(4) have y: "y = of_int (?mb * 2 ^ kb)"
      by (simp split: if_splits)
    have ylo: "(2::int) ^ 52 * 2 ^ kb \<le> ?mb * 2 ^ kb"
      using B(3) by (intro mult_right_mono) simp_all
    from assms(1) show ?thesis
    proof (cases rule: bitlen_split)
      case 1
      with assms(1,3) have x: "x = of_int a"
        by (simp add: int_to_float_exact)
      have "(2::int) ^ 53 \<le> 2 ^ 52 * 2 ^ kb"
        using 2(1) power_increasing [of 53 "52 + kb" "2::int"] by (simp add: power_add)
      with 1 ylo have "a \<le> ?mb * 2 ^ kb"
        by linarith
      then show ?thesis
        unfolding x y by (simp only: of_int_le_iff)
    next
      case (2 ka)
      let ?ma = "round_half_even (of_int a / 2 ^ ka)"
      note A = int_to_float_rounded [OF assms(1) 2(2) 2(1)]
      from A(5) assms(3) have x: "x = of_int (?ma * 2 ^ ka)"
        by (simp split: if_splits)
      have "bitlen a \<le> bitlen b"
        using assms(1,2) by (rule bitlen_mono)
      with 2(2) \<open>bitlen b = 53 + int kb\<close> have le: "ka \<le> kb"
        by simp
      have "?ma * 2 ^ ka \<le> ?mb * 2 ^ kb"
      proof (cases "ka = kb")
        case True
        have "(of_int a :: rat) / 2 ^ kb \<le> of_int b / 2 ^ kb"
          using assms(2) by (simp add: divide_right_mono)
        then have "round_half_even (of_int a / 2 ^ kb) \<le> ?mb"
          by (rule round_half_even_mono)
        then show ?thesis
          unfolding True by (intro mult_right_mono) simp_all
      next
        case False
        with le have "53 + ka \<le> 52 + kb" by simp
        then have pw: "(2::int) ^ (53 + ka) \<le> 2 ^ (52 + kb)"
          by (intro power_increasing) simp_all
        have "?ma * 2 ^ ka \<le> 2 ^ 53 * 2 ^ ka"
          using A(4) by (intro mult_right_mono) simp_all
        also have "\<dots> = 2 ^ (53 + ka)"
          by (simp only: power_add)
        also note pw
        also have "(2::int) ^ (52 + kb) = 2 ^ 52 * 2 ^ kb"
          by (simp only: power_add)
        also note ylo
        finally show ?thesis .
      qed
      then show ?thesis
        unfolding x y by (simp only: of_int_le_iff)
    qed
  qed
qed

lemma int_to_float_returns:
  assumes "0 \<le> n" "n < 2 ^ 1023"
  shows "\<exists>x. int_to_float n = Inr x"
  using assms(1)
proof (cases rule: bitlen_split)
  case 1
  with assms show ?thesis
    by (simp add: int_to_float_exact)
next
  case (2 k)
  let ?m = "round_half_even (of_int n / 2 ^ k)"
  note N = int_to_float_rounded [OF assms(1) 2(2) 2(1)]
  from N(1) assms(2) have "(2::int) ^ (52 + k) < 2 ^ 1023"
    by linarith
  then have "52 + k < 1023"
    by (simp only: power_strict_increasing_iff)
  then have "53 + k \<le> 1023" by simp
  then have pw: "(2::int) ^ (53 + k) \<le> 2 ^ 1023"
    by (intro power_increasing) simp_all
  have "?m * 2 ^ k \<le> 2 ^ 53 * 2 ^ k"
    using N(4) by (intro mult_right_mono) simp_all
  also have "\<dots> = 2 ^ (53 + k)"
    by (simp only: power_add)
  also note pw
  also have "(2::int) ^ 1023 < 2 ^ 1024"
    by (intro power_strict_increasing) simp_all
  finally have "\<not> 2 ^ 1024 \<le> ?m * 2 ^ k"
    by (simp only: not_le)
  then have "int_to_float n = Inr (of_int (?m * 2 ^ k))"
    using N(5) by (simp only: if_False)
  then show ?thesis by blast
qed

lemma int_to_float_overflow:
  "int_to_float (2 ^ 1024) = Inl (Error ''int too large to convert to float'')"
proof -
  have bl: "bitlen (2 ^ 1024) = 53 + int 972"
    using bitlen_twopow_add_eq [of 0 1024] by simp
  have "round_half_even (of_int (2 ^ 1024) / 2 ^ 972) = round_half_even (of_int (2 ^ 52))"
    by (simp add: power_diff [symmetric])
  then have m: "round_half_even (of_int (2 ^ 1024) / 2 ^ 972) = 2 ^ 52"
    by (simp only: round_half_even_of_int)
  have "(2::int) ^ 52 * 2 ^ 972 = 2 ^ 1024"
    by (simp add: power_add [symmetric])
  with m int_to_float_rounded(5) [OF _ bl] show ?thesis
    by simp
qed

lemma of_char_digit: "d < 10 \<Longrightarrow> of_char (digit_char d) = 48 + d"
  by (simp add: digit_char_def)

lemma digit_char_props:
  assumes "d < 10"
  shows "digit_char d \<noteq> CHR '' ''" "digit_char d \<noteq> CHR ''.''" "digit_value (digit_char d) = d"
proof -
  have v: "of_char (digit_char d) = 48 + d"
    using assms by (rule of_char_digit)
  show "digit_value (digit_char d) = d"
    by (simp add: digit_value_def v)
  show "digit_char d \<noteq> CHR '' ''"
  proof
    assume "digit_char d = CHR '' ''"
    then have "(of_char (digit_char d) :: nat) = of_char CHR '' ''" by simp
    with v show False by simp
  qed
  show "digit_char d \<noteq> CHR ''.''"
  proof
    assume "digit_char d = CHR ''.''"
    then have "(of_char (digit_char d) :: nat) = of_char CHR ''.''" by simp
    with v show False by simp
  qed
qed

lemma str_nat_digits: "c \<in> set (str_nat n) \<Longrightarrow> \<exists>d<10. c = digit_char d"
proof (induction n arbitrary: c rule: str_nat.induct)
  case (1 n)
  show ?case
  proof (cases "n < 10")
    case True
    with 1(2) show ?thesis
      by (subst (asm) str_nat.simps) auto
  next
    case False
    from 1(2) have "c \<in> set (str_nat (n div 10)) \<or> c = digit_char (n mod 10)"
      using False by (subst (asm) str_nat.simps) auto
    then show ?thesis
    proof
      assume "c \<in> set (str_nat (n div 10))"
      with 1(1) [OF False] show ?thesis by blast
    next
      assume "c = digit_char (n mod 10)"
      then show ?thesis by (intro exI [of _ "n mod 10"]) simp
    qed
  qed
qed

lemma read_nat_snoc: "read_nat (xs @ [c]) = 10 * read_nat xs + digit_value c"
  by (simp add: read_nat_def)

lemma read_nat_str_nat: "read_nat (str_nat n) = n"
proof (induction n rule: str_nat.induct)
  case (1 n)
  show ?case
  proof (cases "n < 10")
    case True
    then show ?thesis
      by (subst str_nat.simps) (simp add: read_nat_def digit_char_props)
  next
    case False
    then have "read_nat (str_nat (n div 10)) = n div 10"
      by (rule 1)
    with False show ?thesis
      by (subst str_nat.simps) (simp add: read_nat_snoc digit_char_props)
  qed
qed

lemma str_nat_no_space: "CHR '' '' \<notin> set (str_nat n)"
proof
  assume "CHR '' '' \<in> set (str_nat n)"
  then obtain d where "d < 10" "CHR '' '' = digit_char d"
    using str_nat_digits by blast
  then show False
    using digit_char_props(1) [of d] by simp
qed

lemma str_nat_no_point: "CHR ''.'' \<notin> set (str_nat n)"
proof
  assume "CHR ''.'' \<in> set (str_nat n)"
  then obtain d where "d < 10" "CHR ''.'' = digit_char d"
    using str_nat_digits by blast
  then show False
    using digit_char_props(2) [of d] by simp
qed

lemma hundredths_digits: "10 * (10 * (h div 100) + h mod 100 div 10) + h mod 10 = (h::nat)"
proof -
  have "h mod 100 div 10 = h div 10 mod 10"
    by (simp add: mod_mult2_eq [of h 10 10, simplified] div_mult2_eq)
  moreover have "h div 100 = h div 10 div 10"
    by (simp add: div_mult2_eq)
  ultimately show ?thesis
    by (simp add: algebra_simps)
qed

lemma format_2f_parts:
  assumes "0 \<le> x"
  shows "numeric_part (format_2f x @ '' '' @ u) = nat (round_half_even (x * 100))"
    and "CHR '' '' \<notin> set u \<Longrightarrow> unit_of (format_2f x @ '' '' @ u) = u"
proof -
  define h where "h = nat (round_half_even (x * 100))"
  define whole where "whole = str_nat (h div 100)"
  define d1 where "d1 = digit_char (h mod 100 div 10)"
  define d0 where "d0 = digit_char (h mod 10)"
  have f: "format_2f x = whole @ CHR ''.'' # [d1, d0]"
    using assms by (simp add: format_2f_def Let_def h_def whole_def d1_def d0_def)
  have lt: "h mod 100 div 10 < 10" "h mod 10 < 10"
    by simp_all
  have d1: "d1 \<noteq> CHR '' ''" "d1 \<noteq> CHR ''.''" "digit_value d1 = h mod 100 div 10"
    unfolding d1_def using lt(1) by (simp_all add: digit_char_props)
  have d0: "d0 \<noteq> CHR '' ''" "d0 \<noteq> CHR ''.''" "digit_value d0 = h mod 10"
    unfolding d0_def using lt(2) by (simp_all add: digit_char_props)
  have w: "CHR '' '' \<notin> set whole" "CHR ''.'' \<notin> set whole" "read_nat whole = h div 100"
    unfolding whole_def by (simp_all add: str_nat_no_space str_nat_no_point read_nat_str_nat)
  have "takeWhile (\<lambda>c. c \<noteq> CHR '' '') (whole @ CHR ''.'' # d1 # d0 # CHR '' '' # u) =
      whole @ takeWhile (\<lambda>c. c \<noteq> CHR '' '') (CHR ''.'' # d1 # d0 # CHR '' '' # u)"
    using w(1) by (intro takeWhile_append2) auto
  then have tw: "takeWhile (\<lambda>c. c \<noteq> CHR '' '') (format_2f x @ '' '' @ u) =
      whole @ CHR ''.'' # [d1, d0]"
    unfolding f using d1(1) d0(1) by simp
  have "filter (\<lambda>c. c \<noteq> CHR ''.'') (whole @ CHR ''.'' # [d1, d0]) = (whole @ [d1]) @ [d0]"
    using w(2) d1(2) d0(2) by (auto simp: filter_id_conv)
  then have "numeric_part (format_2f x @ '' '' @ u) = 10 * (10 * (h div 100) + h mod 100 div 10) + h mod 10"
    unfolding numeric_part_def tw by (simp only: read_nat_snoc w(3) d1(3) d0(3))
  also have "\<dots> = h"
    by (rule hundredths_digits)
  finally show "numeric_part (format_2f x @ '' '' @ u) = nat (round_half_even (x * 100))"
    by (simp add: h_def)
  show "unit_of (format_2f x @ '' '' @ u) = u" if "CHR '' '' \<notin> set u"
  proof -
    have "rev (format_2f x @ '' '' @ u) = rev u @ CHR '' '' # rev (format_2f x)"
      by simp
    moreover have "takeWhile (\<lambda>c. c \<noteq> CHR '' '') (rev u @ CHR '' '' # rev (format_2f x)) = rev u"
      using that by (auto simp: takeWhile_tail)
    ultimately show ?thesis
      by (simp add: unit_of_def)
  qed
qed

lemma format_loop_float_unit:
  assumes "0 \<le> x" "\<forall>u \<in> set us. CHR '' '' \<notin> set u"
  shows "\<exists>s. format_loop (PyFloat x) us = Inr s \<and> unit_of s \<in> set (us @ [''PB''])"
  using assms
proof (induction us arbitrary: x)
  case Nil
  have "unit_of (format_2f x @ '' '' @ ''PB'') = ''PB''"
    using Nil(1) by (intro format_2f_parts(2)) simp_all
  then show ?case
    by (simp add: fmt_2f_def)
next
  case (Cons u us)
  show ?case
  proof (cases "x < 1024")
    case True
    have "unit_of (format_2f x @ '' '' @ u) = u"
      using Cons.prems by (intro format_2f_parts(2)) simp_all
    with True show ?thesis
      by (simp add: fmt_2f_def lt_1024_def)
  next
    case False
    have "\<exists>s. format_loop (PyFloat (x / 1024)) us = Inr s \<and> unit_of s \<in> set (us @ [''PB''])"
      using Cons.prems by (intro Cons.IH) simp_all
    with False show ?thesis
      by (auto simp: lt_1024_def div_1024_def)
  qed
qed

lemma format_loop_float_mono:
  assumes "0 \<le> x" "x \<le> y" "\<forall>u \<in> set us. CHR '' '' \<notin> set u" "distinct (us @ [''PB''])"
    "format_loop (PyFloat x) us = Inr sx" "format_loop (PyFloat y) us = Inr sy"
    "unit_of sx = unit_of sy"
  shows "numeric_part sx \<le> numeric_part sy"
  using assms
proof (induction us arbitrary: x y)
  case Nil
  then have y0: "0 \<le> y" by simp
  from Nil have "sx = format_2f x @ '' '' @ ''PB''" "sy = format_2f y @ '' '' @ ''PB''"
    by (simp_all add: fmt_2f_def)
  then have "numeric_part sx = nat (round_half_even (x * 100))"
    "numeric_part sy = nat (round_half_even (y * 100))"
    using Nil(1) y0 by (simp_all only: format_2f_parts(1))
  moreover have "round_half_even (x * 100) \<le> round_half_even (y * 100)"
    using Nil(2) by (intro round_half_even_mono) simp
  ultimately show ?case by simp
next
  case (Cons u us)
  then have y0: "0 \<le> y" by simp
  have nosp: "\<forall>v \<in> set us. CHR '' '' \<notin> set v" "CHR '' '' \<notin> set u"
    using Cons.prems(3) by simp_all
  show ?case
  proof (cases "y < 1024")
    case True
    with Cons.prems(2) have "x < 1024" by simp
    with True Cons.prems(5,6) have "sx = format_2f x @ '' '' @ u" "sy = format_2f y @ '' '' @ u"
      by (simp_all add: fmt_2f_def lt_1024_def)
    then have "numeric_part sx = nat (round_half_even (x * 100))"
      "numeric_part sy = nat (round_half_even (y * 100))"
      using Cons.prems(1) y0 by (simp_all only: format_2f_parts(1))
    moreover have "round_half_even (x * 100) \<le> round_half_even (y * 100)"
      using Cons.prems(2) by (intro round_half_even_mono) simp
    ultimately show ?thesis by simp
  next
    case False
    then have sy: "format_loop (PyFloat (y / 1024)) us = Inr sy"
      using Cons.prems(6) by (simp add: lt_1024_def div_1024_def)
    show ?thesis
    proof (cases "x < 1024")
      case True
      with Cons.prems(5) have "sx = format_2f x @ '' '' @ u"
        by (simp add: fmt_2f_def lt_1024_def)
      then have "unit_of sx = u"
        using format_2f_parts(2) [OF Cons.prems(1) nosp(2)] by simp
      moreover have "unit_of sy \<in> set (us @ [''PB''])"
        using format_loop_float_unit [of "y / 1024" us] y0 nosp(1) sy by auto
      moreover have "u \<notin> set (us @ [''PB''])"
        using Cons.prems(4) by simp
      ultimately show ?thesis
        using Cons.prems(7) by simp
    next
      case False
      then have sx: "format_loop (PyFloat (x / 1024)) us = Inr sx"
        using Cons.prems(5) by (simp add: lt_1024_def div_1024_def)
      show ?thesis
      proof (rule Cons.IH [of "x / 1024" "y / 1024"])
        show "0 \<le> x / 1024" using Cons.prems(1) by simp
        show "x / 1024 \<le> y / 1024" using Cons.prems(2) by (simp add: divide_right_mono)
        show "\<forall>u \<in> set us. CHR '' '' \<notin> set u" by (rule nosp(1))
        show "distinct (us @ [''PB''])" using Cons.prems(4) by simp
        show "format_loop (PyFloat (x / 1024)) us = Inr sx" by (rule sx)
        show "format_loop (PyFloat (y / 1024)) us = Inr sy" by (rule sy)
        show "unit_of sx = unit_of sy" by (rule Cons.prems(7))
      qed
    qed
  qed
qed

lemma int_to_float_nonneg:
  assumes "0 \<le> n" "int_to_float n = Inr x"
  shows "0 \<le> x"
proof -
  have "int_to_float 0 = Inr 0"
    using int_to_float_exact [of 0] by simp
  with assms show ?thesis
    using int_to_float_mono [of 0 n 0 x] by simp
qed

lemma format_size_float:
  assumes "0 \<le> n" "int_to_float n = Inr x"
  shows "format_size n = format_loop (PyFloat x) [''B'', ''KB'', ''MB'', ''GB'', ''TB'']"
proof (cases "n < 1024")
  case True
  then have "n < 2 ^ 53" by simp
  with assms have x: "x = of_int n"
    by (simp add: int_to_float_exact)
  with True have "x < 1024" by simp
  with True assms(2) show ?thesis
    by (simp add: format_size_def lt_1024_def fmt_2f_def)
next
  case False
  have "int_to_float 1024 = Inr 1024"
    using int_to_float_exact [of 1024] by simp
  with False assms(2) have "1024 \<le> x"
    using int_to_float_mono [of 1024 n 1024 x] by simp
  with False assms(2) show ?thesis
    by (simp add: format_size_def lt_1024_def div_1024_def)
qed

lemma format_size_overflow:
  assumes "0 \<le> n" "int_to_float n = Inl e"
  shows "n < 1024 \<or> format_size n = Inl e"
  using assms by (simp add: format_size_def lt_1024_def div_1024_def)

lemma format_size_Inr:
  assumes "0 \<le> n" "format_size n = Inr s"
  shows "\<exists>x. int_to_float n = Inr x \<and> 0 \<le> x \<and>
             format_loop (PyFloat x) [''B'', ''KB'', ''MB'', ''GB'', ''TB''] = Inr s"
proof (cases "int_to_float n")
  case (Inl e)
  have "n < 2 ^ 53 \<Longrightarrow> False"
    using Inl assms(1) by (simp add: int_to_float_exact)
  moreover have "n < 1024 \<Longrightarrow> n < 2 ^ 53"
    by simp
  ultimately have "format_size n = Inl e"
    using format_size_overflow [OF assms(1) Inl] by blast
  with assms(2) show ?thesis by simp
next
  case (Inr x)
  with assms show ?thesis
    using format_size_float [of n x] int_to_float_nonneg [of n x] by simp
qed


text \<open>
  C7, as amended. For every non-negative integer input on which \<open>format_size\<close> returns,
  and it returns on every input below \<open>2 ^ 1023\<close>, the unit suffix of the result is one
  of B, KB, MB, GB, TB, PB; and for any two inputs that format to the same unit, the
  numeric part of the result does not decrease when the input grows.
\<close>

theorem size_units_and_order:
  "(0 \<le> n \<and> n < 2 ^ 1023 \<longrightarrow>
      (\<exists>s. format_size n = Inr s \<and> unit_of s \<in> {''B'', ''KB'', ''MB'', ''GB'', ''TB'', ''PB''})) \<and>
   (0 \<le> n \<and> format_size n = Inr s \<longrightarrow>
      unit_of s \<in> {''B'', ''KB'', ''MB'', ''GB'', ''TB'', ''PB''}) \<and>
   (0 \<le> a \<and> a \<le> b \<and> format_size a = Inr sa \<and> format_size b = Inr sb \<and>
    unit_of sa = unit_of sb \<longrightarrow> numeric_part sa \<le> numeric_part sb)"
proof (intro conjI impI)
  assume n: "0 \<le> n \<and> format_size n = Inr s"
  then obtain x where "0 \<le> x" "format_loop (PyFloat x) [''B'', ''KB'', ''MB'', ''GB'', ''TB''] = Inr s"
    using format_size_Inr by blast
  then show "unit_of s \<in> {''B'', ''KB'', ''MB'', ''GB'', ''TB'', ''PB''}"
    using format_loop_float_unit [of x "[''B'', ''KB'', ''MB'', ''GB'', ''TB'']"] by auto
next
  assume n: "0 \<le> n \<and> n < 2 ^ 1023"
  then obtain x where x: "int_to_float n = Inr x"
    using int_to_float_returns by blast
  with n have "0 \<le> x" "format_size n = format_loop (PyFloat x) [''B'', ''KB'', ''MB'', ''GB'', ''TB'']"
    using int_to_float_nonneg format_size_float by blast+
  then show "\<exists>s. format_size n = Inr s \<and> unit_of s \<in> {''B'', ''KB'', ''MB'', ''GB'', ''TB'', ''PB''}"
    using format_loop_float_unit [of x "[''B'', ''KB'', ''MB'', ''GB'', ''TB'']"] by auto
next
  assume ab: "0 \<le> a \<and> a \<le> b \<and> format_size a = Inr sa \<and> format_size b = Inr sb \<and>
    unit_of sa = unit_of sb"
  then have b0: "0 \<le> b" by simp
  from ab obtain x where x: "int_to_float a = Inr x" "0 \<le> x"
    "format_loop (PyFloat x) [''B'', ''KB'', ''MB'', ''GB'', ''TB''] = Inr sa"
    using format_size_Inr [of a sa] by blast
  from ab b0 obtain y where y: "int_to_float b = Inr y"
    "format_loop (PyFloat y) [''B'', ''KB'', ''MB'', ''GB'', ''TB''] = Inr sb"
    using format_size_Inr [of b sb] by blast
  have "x \<le> y"
    using ab x(1) y(1) int_to_float_mono [of a b x y] by simp
  with x y ab show "numeric_part sa \<le> numeric_part sb"
    by (intro format_loop_float_mono [of x y "[''B'', ''KB'', ''MB'', ''GB'', ''TB'']" sa sb]) simp_all
qed


theorem size_units_and_order_witness:
  "(0::int) \<le> 1024 \<and> (1024::int) \<le> 1536 \<and> (1536::int) < 2 ^ 1023 \<and>
   format_size 1024 = Inr ''1.00 KB'' \<and> format_size 1536 = Inr ''1.50 KB'' \<and>
   unit_of ''1.00 KB'' = unit_of ''1.50 KB'' \<and>
   unit_of ''1.50 KB'' \<in> {''B'', ''KB'', ''MB'', ''GB'', ''TB'', ''PB''} \<and>
   numeric_part ''1.00 KB'' \<le> numeric_part ''1.50 KB''"
proof -
  have f: "format_size 1024 = Inr ''1.00 KB''" "format_size 1536 = Inr ''1.50 KB''"
    "unit_of ''1.00 KB'' = unit_of ''1.50 KB''"
    by code_simp+
  have "unit_of ''1.50 KB'' \<in> {''B'', ''KB'', ''MB'', ''GB'', ''TB'', ''PB''} \<and>
      numeric_part ''1.00 KB'' \<le> numeric_part ''1.50 KB''"
    using size_units_and_order [where n = 1536 and s = "''1.50 KB''" and a = 1024 and b = 1536
        and sa = "''1.00 KB''" and sb = "''1.50 KB''"] f
    by simp
  with f show ?thesis by simp
qed

text \<open>The claim as stated fails in two ways. Two decimal places do not tell 1024 from 1025:
  both give \<open>1.00 KB\<close>, so the numeric part is not strictly increasing. And an input of
  \<open>2 ^ 1024\<close> has no result: the conversion to a float raises \<open>OverflowError\<close>.\<close>

theorem size_units_and_order_counterexample:
  "format_size 1024 = Inr ''1.00 KB'' \<and> format_size 1025 = Inr ''1.00 KB'' \<and>
   unit_of ''1.00 KB'' = ''KB'' \<and> numeric_part ''1.00 KB'' = 100 \<and>
   format_size (2 ^ 1024) = Inl (Error ''int too large to convert to float'')"
proof -
  have "format_size 1024 = Inr ''1.00 KB'' \<and> format_size 1025 = Inr ''1.00 KB'' \<and>
   unit_of ''1.00 KB'' = ''KB'' \<and> numeric_part ''1.00 KB'' = 100"
    by code_simp
  moreover have "format_size (2 ^ 1024) = Inl (Error ''int too large to convert to float'')"
    using format_size_overflow [of "2 ^ 1024", OF _ int_to_float_overflow]
      power_strict_increasing [of 10 1024 "2::int"]
    by simp
  ultimately show ?thesis by blast
qed

subsection \<open>The link validator\<close>

text \<open>
  C8. A string is accepted if and only if it begins, at position 0, with the prefix
  \<open>https://mega.nz/\<close>. The empty string is rejected, a link with the scheme \<open>http\<close> is
  rejected, and a string that holds the prefix further on but does not begin with it is
  rejected. The test is the one \<open>download_command\<close> and \<open>handle_message\<close> make: for an
  authorized user a rejected argument or text gets the fixed reply and nothing else.
\<close>

theorem link_validator:
  "(startswith s ''https://mega.nz/'' \<longleftrightarrow> (\<exists>t. s = ''https://mega.nz/'' @ t)) \<and>
   \<not> startswith [] ''https://mega.nz/'' \<and>
   \<not> startswith (''http://mega.nz/'' @ t) ''https://mega.nz/'' \<and>
   (\<not> prefix ''https://mega.nz/'' (u @ ''https://mega.nz/'' @ t) \<longrightarrow>
      \<not> startswith (u @ ''https://mega.nz/'' @ t) ''https://mega.nz/'') \<and>
   (user_id \<in> set AUTHORIZED_USERS \<and> \<not> startswith s ''https://mega.nz/'' \<longrightarrow>
      download_command ev self user_id chat_id (s # args) w = reply_text ev ProvideValidLink w \<and>
      new_calls w (download_command ev self user_id chat_id (s # args) w) =
        [ReplyText ProvideValidLink] \<and>
      files (download_command ev self user_id chat_id (s # args) w) = files w \<and>
      handle_message ev self user_id chat_id s w = reply_text ev SendValidLink w \<and>
      new_calls w (handle_message ev self user_id chat_id s w) = [ReplyText SendValidLink] \<and>
      files (handle_message ev self user_id chat_id s w) = files w) \<and>
   (user_id \<in> set AUTHORIZED_USERS \<and> startswith s ''https://mega.nz/'' \<longrightarrow>
      download_command ev self user_id chat_id (s # args) w =
        when_downloaded (fst (download_from_public_link ev self s chat_id w))
          (send_file ev CaptionCompleted ErrorSendingFile)
          (snd (download_from_public_link ev self s chat_id w)) \<and>
      handle_message ev self user_id chat_id s w =
        when_downloaded (fst (download_from_public_link ev self s chat_id w))
          (send_file ev CaptionCompleted ErrorSendingFile)
          (snd (download_from_public_link ev self s chat_id w)))"
proof (intro conjI)
  show "startswith s ''https://mega.nz/'' \<longleftrightarrow> (\<exists>t. s = ''https://mega.nz/'' @ t)"
    by (rule startswith_iff_append)
  show "\<not> startswith [] ''https://mega.nz/''"
    by simp
  show "\<not> startswith (''http://mega.nz/'' @ t) ''https://mega.nz/''"
    by simp
  show "\<not> prefix ''https://mega.nz/'' (u @ ''https://mega.nz/'' @ t) \<longrightarrow>
      \<not> startswith (u @ ''https://mega.nz/'' @ t) ''https://mega.nz/''"
    unfolding startswith_iff_prefix by (rule impI)
  show "user_id \<in> set AUTHORIZED_USERS \<and> \<not> startswith s ''https://mega.nz/'' \<longrightarrow>
      download_command ev self user_id chat_id (s # args) w = reply_text ev ProvideValidLink w \<and>
      new_calls w (download_command ev self user_id chat_id (s # args) w) =
        [ReplyText ProvideValidLink] \<and>
      files (download_command ev self user_id chat_id (s # args) w) = files w \<and>
      handle_message ev self user_id chat_id s w = reply_text ev SendValidLink w \<and>
      new_calls w (handle_message ev self user_id chat_id s w) = [ReplyText SendValidLink] \<and>
      files (handle_message ev self user_id chat_id s w) = files w"
    by (simp add: download_command_def handle_message_def new_calls_def)
  show "user_id \<in> set AUTHORIZED_USERS \<and> startswith s ''https://mega.nz/'' \<longrightarrow>
      download_command ev self user_id chat_id (s # args) w =
        when_downloaded (fst (download_from_public_link ev self s chat_id w))
          (send_file ev CaptionCompleted ErrorSendingFile)
          (snd (download_from_public_link ev self s chat_id w)) \<and>
      handle_message ev self user_id chat_id s w =
        when_downloaded (fst (download_from_public_link ev self s chat_id w))
          (send_file ev CaptionCompleted ErrorSendingFile)
          (snd (download_from_public_link ev self s chat_id w))"
    by (simp add: download_command_def handle_message_def split: prod.splits)
qed

theorem link_validator_witness:
  "\<not> prefix ''https://mega.nz/'' (''see '' @ ''https://mega.nz/'' @ ''file/A'') \<and>
   \<not> startswith (''see '' @ ''https://mega.nz/'' @ ''file/A'') ''https://mega.nz/'' \<and>
   123456789 \<in> set AUTHORIZED_USERS \<and>
   new_calls empty_world
     (download_command calm_env default_bot 123456789 7 [''see https://mega.nz/file/A'']
        empty_world) = [ReplyText ProvideValidLink] \<and>
   new_calls empty_world
     (handle_message calm_env default_bot 123456789 7 ''see https://mega.nz/file/A'' empty_world) =
     [ReplyText SendValidLink]"
  using link_validator [of "''see https://mega.nz/file/A''" "''file/A''" "''see ''" 123456789
      calm_env default_bot 7 "[]" empty_world] authorized_example
  by (simp add: new_calls_def)

subsection \<open>The authorization gate\<close>

text \<open>
  C2. For every inbound event (start command, download command, free text, document) whose
  sender is not in the allow-list, the handler issues exactly one call, the reply with the
  fixed denial text. Nothing else runs: no call of the orchestrator or of the relay, and
  the local files are unchanged.
\<close>

theorem unauthorized_denied:
  "user_id \<notin> set AUTHORIZED_USERS \<Longrightarrow>
     dispatch ev self user_id chat_id e w = reply_text ev NotAuthorized w \<and>
     new_calls w (dispatch ev self user_id chat_id e w) = [ReplyText NotAuthorized] \<and>
     files (dispatch ev self user_id chat_id e w) = files w \<and>
     start_command ev user_id w = reply_text ev NotAuthorized w \<and>
     download_command ev self user_id chat_id args w = reply_text ev NotAuthorized w \<and>
     handle_message ev self user_id chat_id message_text w = reply_text ev NotAuthorized w \<and>
     handle_document ev self user_id chat_id doc w = reply_text ev NotAuthorized w"
  by (cases e)
     (simp_all add: dispatch_def start_command_def download_command_def handle_message_def
        handle_document_def new_calls_def)

theorem unauthorized_denied_witness:
  "42 \<notin> set AUTHORIZED_USERS \<and>
   new_calls empty_world
     (dispatch calm_env default_bot 42 7 (DownloadCommand [''https://mega.nz/file/X'']) empty_world) =
     [ReplyText NotAuthorized] \<and>
   files (dispatch calm_env default_bot 42 7 (DownloadCommand [''https://mega.nz/file/X'']) empty_world) =
     files empty_world"
  using unauthorized_denied [of 42 calm_env default_bot 7
      "DownloadCommand [''https://mega.nz/file/X'']" empty_world]
  by (simp add: AUTHORIZED_USERS_def new_calls_def)

subsection \<open>The download command without an argument\<close>

text \<open>
  C10. When an authorized user invokes the download command with no argument, the bot
  issues exactly one call, the reply with the usage example: neither the orchestrator nor
  the relay is called, and the local files are unchanged.
\<close>

theorem download_without_argument:
  "user_id \<in> set AUTHORIZED_USERS \<Longrightarrow>
     download_command ev self user_id chat_id [] w = reply_text ev UsageExample w \<and>
     new_calls w (download_command ev self user_id chat_id [] w) = [ReplyText UsageExample] \<and>
     files (download_command ev self user_id chat_id [] w) = files w"
  by (simp add: download_command_def new_calls_def)

theorem download_without_argument_witness:
  "123456789 \<in> set AUTHORIZED_USERS \<and>
   new_calls empty_world (download_command calm_env default_bot 123456789 7 [] empty_world) =
     [ReplyText UsageExample] \<and>
   files (download_command calm_env default_bot 123456789 7 [] empty_world) = files empty_world"
  using download_without_argument [of 123456789 calm_env default_bot 7 empty_world]
    authorized_example
  by (simp add: new_calls_def)

subsection \<open>The relay and the local file\<close>

text \<open>
  C1, as amended. A local file handed to the relay step (the block that
  \<open>download_command\<close>, \<open>handle_message\<close> and \<open>handle_document\<close> share, with their own
  caption and error text) is deleted when the upload succeeds: \<open>os.remove\<close> is the call
  right after the upload, and the file is gone once it returns. When opening or uploading
  the file raises, no deletion is attempted: the file stays on local storage, and the one
  further call is the error reply to the chat. When \<open>os.remove\<close> itself raises, the file
  stays and the same error reply is sent.
\<close>

theorem relay_cleanup:
  assumes "files w p \<noteq> None"
  shows "(open_raises ev w p = None \<and>
          reply_document_raises ev (issue (OpenFile p) w) p (basename p) (caption (basename p)) = None \<and>
          remove_raises ev
            (issue (ReplyDocument p (basename p) (caption (basename p))) (issue (OpenFile p) w)) p =
            None \<longrightarrow>
            files (send_file ev caption failure p w) = (files w)(p := None) \<and>
            new_calls w (send_file ev caption failure p w) =
              [OpenFile p, ReplyDocument p (basename p) (caption (basename p)), RemoveFile p]) \<and>
         (open_raises ev w p = None \<and>
          reply_document_raises ev (issue (OpenFile p) w) p (basename p) (caption (basename p)) =
            Some (Error e) \<longrightarrow>
            files (send_file ev caption failure p w) = files w \<and>
            new_calls w (send_file ev caption failure p w) =
              [OpenFile p, ReplyDocument p (basename p) (caption (basename p)),
               ReplyText (failure e)]) \<and>
         (open_raises ev w p = Some (Error e) \<longrightarrow>
            files (send_file ev caption failure p w) = files w \<and>
            new_calls w (send_file ev caption failure p w) = [OpenFile p, ReplyText (failure e)]) \<and>
         (open_raises ev w p = None \<and>
          reply_document_raises ev (issue (OpenFile p) w) p (basename p) (caption (basename p)) = None \<and>
          remove_raises ev
            (issue (ReplyDocument p (basename p) (caption (basename p))) (issue (OpenFile p) w)) p =
            Some (Error e) \<longrightarrow>
            files (send_file ev caption failure p w) = files w \<and>
            new_calls w (send_file ev caption failure p w) =
              [OpenFile p, ReplyDocument p (basename p) (caption (basename p)), RemoveFile p,
               ReplyText (failure e)])"
  using assms
  by (auto simp: send_file_def try_send_def Let_def new_calls_def)

theorem relay_cleanup_witness:
  "files one_file_world ''downloads/a.zip'' \<noteq> None \<and>
   files (send_file calm_env CaptionCompleted ErrorSendingFile ''downloads/a.zip'' one_file_world)
     ''downloads/a.zip'' = None \<and>
   new_calls one_file_world
     (send_file calm_env CaptionCompleted ErrorSendingFile ''downloads/a.zip'' one_file_world) =
     [OpenFile ''downloads/a.zip'',
      ReplyDocument ''downloads/a.zip'' (basename ''downloads/a.zip'')
        (CaptionCompleted (basename ''downloads/a.zip'')),
      RemoveFile ''downloads/a.zip''] \<and>
   files (send_file upload_fails_env CaptionCompleted ErrorSendingFile ''downloads/a.zip''
            one_file_world) = files one_file_world"
  using relay_cleanup [where w = one_file_world and p = "''downloads/a.zip''" and ev = calm_env
      and caption = CaptionCompleted and failure = ErrorSendingFile]
    relay_cleanup [where w = one_file_world and p = "''downloads/a.zip''"
      and ev = upload_fails_env and caption = CaptionCompleted and failure = ErrorSendingFile
      and e = "''Timed out''"]
  by (simp add: one_file_world_def calm_env_def upload_fails_env_def)

text \<open>The claim as stated fails when the upload raises: after \<open>/download\<close> of a link that
  downloads to \<open>downloads/a.zip\<close>, with an upload that times out, the file is still
  there when the handler ends, and \<open>os.remove\<close> was never called.\<close>

theorem relay_cleanup_counterexample:
  "files (download_command upload_fails_env default_bot 123456789 7 [''https://mega.nz/file/X'']
            empty_world) ''downloads/a.zip'' = Some ''data'' \<and>
   new_calls empty_world
     (download_command upload_fails_env default_bot 123456789 7 [''https://mega.nz/file/X'']
        empty_world) =
     [SendMessage 7 (ProcessingLink ''https://mega.nz/file/X''),
      GetPublicFileInfo ''https://mega.nz/file/X'',
      EditText (StartingDownload ''a.zip'' ''2.00 KB''),
      DownloadFromUrl ''https://mega.nz/file/X'' ''downloads'' ''a.zip'',
      EditText (DownloadCompleted ''a.zip'' ''downloads/a.zip''),
      OpenFile ''downloads/a.zip'',
      ReplyDocument ''downloads/a.zip'' ''a.zip'' (CaptionCompleted ''a.zip''),
      ReplyText (ErrorSendingFile ''Timed out'')]"
  by code_simp

subsection \<open>The orchestrator on a link that does not resolve\<close>



subsection \<open>Start-up\<close>

text \<open>
  C9. If the configured token equals the placeholder, the process refuses to start: it
  prints the four lines of instructions and neither builds the application nor polls.
  Otherwise it constructs the bot and starts it with that token. The token that the source
  configures is the placeholder.
\<close>

theorem startup_token_check:
  "(token = ''YOUR_BOT_TOKEN_HERE'' \<longrightarrow>
      new_calls w (main token w) =
        [Print PleaseSetToken, Print SetupStep1, Print SetupStep2, Print SetupStep3]) \<and>
   (token \<noteq> ''YOUR_BOT_TOKEN_HERE'' \<longrightarrow>
      new_calls w (main token w) =
        [Mkdir ''downloads'', NewMega, LogInfo BotInitialized, BuildApplication token,
         AddHandler (Command ''start''), AddHandler (Command ''download''),
         AddHandler TextNotCommand, AddHandler AnyDocument, LogInfo BotRunning, RunPolling]) \<and>
   new_calls w (main BOT_TOKEN w) =
     [Print PleaseSetToken, Print SetupStep1, Print SetupStep2, Print SetupStep3]"
  by (simp add: main_def init_def run_bot_def BOT_TOKEN_def new_calls_def Let_def)

theorem startup_token_check_witness:
  "''123:abc'' \<noteq> ''YOUR_BOT_TOKEN_HERE'' \<and>
   new_calls empty_world (main ''123:abc'' empty_world) =
        [Mkdir ''downloads'', NewMega, LogInfo BotInitialized, BuildApplication ''123:abc'',
         AddHandler (Command ''start''), AddHandler (Command ''download''),
         AddHandler TextNotCommand, AddHandler AnyDocument, LogInfo BotRunning, RunPolling] \<and>
   new_calls empty_world (main ''YOUR_BOT_TOKEN_HERE'' empty_world) =
        [Print PleaseSetToken, Print SetupStep1, Print SetupStep2, Print SetupStep3]"
  using startup_token_check [of "''123:abc''" empty_world]
    startup_token_check [of "''YOUR_BOT_TOKEN_HERE''" empty_world]
  by simp


subsection \<open>The calls of the orchestrator and of the relay\<close>

lemma unless_raised_None [simp]: "raised w = None \<Longrightarrow> unless_raised w f = f w"
  by (simp add: unless_raised_def)

lemma unless_raised_Some [simp]: "raised w = Some e \<Longrightarrow> unless_raised w f = w"
  by (simp add: unless_raised_def)



lemma download_steps_calls:
  "calls (snd (download_steps ev self link w)) =
     calls w @ new_calls w (snd (download_steps ev self link w))"
  "new_calls w (snd (download_steps ev self link w)) \<noteq> []"
  "hd (new_calls w (snd (download_steps ev self link w))) = GetPublicFileInfo link"
  "list_all (orchestrator_call self link) (new_calls w (snd (download_steps ev self link w)))"
  unfolding download_steps_def Let_def new_calls_def
  by (simp_all add: orchestrator_call_def split: option.splits sum.splits prod.splits)

lemma download_steps_result:
  "fst (download_steps ev self link w) = Inr r \<Longrightarrow>
     completed_path (new_calls w (snd (download_steps ev self link w))) = r"
  "fst (download_steps ev self link w) = Inr (Some p) \<Longrightarrow>
     files (snd (download_steps ev self link w)) p \<noteq> None"
  unfolding download_steps_def Let_def new_calls_def
  by (auto simp: completed_path_def split: option.splits sum.splits prod.splits)


lemma download_calls:
  "\<exists>d. calls (snd (download_from_public_link ev self link chat_id w)) =
         calls w @ SendMessage chat_id (ProcessingLink link) # d \<and> d \<noteq> [] \<and>
       (hd d = GetPublicFileInfo link \<or> (\<exists>e. d = [LogError (DownloadFailed e)])) \<and>
       list_all (orchestrator_call self link) d \<and>
       completed_path d = fst (download_from_public_link ev self link chat_id w) \<and>
       (\<forall>p. fst (download_from_public_link ev self link chat_id w) = Some p \<longrightarrow>
          files (snd (download_from_public_link ev self link chat_id w)) p \<noteq> None)"
proof (cases "send_message_raises ev w chat_id (ProcessingLink link)")
  case (Some err)
  obtain e where "err = Error e" by (cases err)
  with Some show ?thesis
    by (intro exI [of _ "[LogError (DownloadFailed e)]"])
      (simp add: download_from_public_link_def Let_def orchestrator_call_def completed_path_def)
next
  case None
  let ?w1 = "issue (SendMessage chat_id (ProcessingLink link)) w"
  let ?d = "new_calls ?w1 (snd (download_steps ev self link ?w1))"
  note d = download_steps_calls [where ev = ev and self = self and link = link and w = ?w1]
  show ?thesis
  proof (cases "download_steps ev self link ?w1")
    case (Pair res w2)
    show ?thesis
    proof (cases res)
      case (Inl err)
      obtain e where "err = Error e" by (cases err)
      with Inl Pair None d show ?thesis
        by (intro exI [of _ "?d @ [LogError (DownloadFailed e), EditText (DownloadFailed e)]"])
          (simp add: download_from_public_link_def Let_def orchestrator_call_def
            completed_path_def)
    next
      case (Inr r)
      with Pair have "completed_path ?d = r"
        "\<And>p. r = Some p \<Longrightarrow> files (snd (download_steps ev self link ?w1)) p \<noteq> None"
        using download_steps_result [where ev = ev and self = self and link = link and w = ?w1] by simp_all
      with Inr Pair None d show ?thesis
        by (intro exI [of _ ?d]) (simp add: download_from_public_link_def Let_def)
    qed
  qed
qed

text \<open>A path that the orchestrator returns names a file that exists when the relay gets it.\<close>

lemma download_result_exists:
  "fst (download_from_public_link ev self link chat_id w) = Some p \<Longrightarrow>
     files (snd (download_from_public_link ev self link chat_id w)) p \<noteq> None"
  using download_calls [of ev self link chat_id w] by blast


lemma try_send_calls:
  "\<exists>r. calls (snd (try_send ev (CaptionItem i n) p w)) = calls w @ OpenFile p # r \<and>
       list_all (relay_call i n p) r"
  unfolding try_send_def Let_def
  by (auto simp: relay_call_def split: option.splits)


lemma send_file_calls:
  "\<exists>r. calls (send_file ev (CaptionItem i n) (ErrorSendingFileNo i) p w) =
         calls w @ OpenFile p # r \<and> list_all (relay_call i n p) r"
proof -
  obtain r where r: "calls (snd (try_send ev (CaptionItem i n) p w)) = calls w @ OpenFile p # r"
    "list_all (relay_call i n p) r"
    using try_send_calls by blast
  show ?thesis
  proof (cases "try_send ev (CaptionItem i n) p w")
    case (Pair res w')
    show ?thesis
    proof (cases res)
      case (Inl err)
      obtain e where "err = Error e" by (cases err)
      with Inl Pair r show ?thesis
        by (intro exI [of _ "r @ [ReplyText (ErrorSendingFileNo i e)]"])
          (simp add: send_file_def relay_call_def)
    next
      case (Inr u)
      with Pair r show ?thesis
        by (intro exI [of _ r]) (simp add: send_file_def)
    qed
  qed
qed


lemma relay_calls:
  "\<exists>r. calls (when_downloaded res (send_file ev (CaptionItem i n) (ErrorSendingFileNo i)) w) =
         calls w @ r \<and>
       (case res of
          None \<Rightarrow> r = []
        | Some p \<Rightarrow>
            if p = [] then r = []
            else r \<noteq> [] \<and> hd r = OpenFile p \<and> list_all (relay_call i n p) r)"
proof (cases res)
  case None
  then show ?thesis by (simp add: when_downloaded_def)
next
  case (Some p)
  show ?thesis
  proof (cases "p = []")
    case True
    with Some show ?thesis by (simp add: when_downloaded_def)
  next
    case False
    obtain r where "calls (send_file ev (CaptionItem i n) (ErrorSendingFileNo i) p w) =
        calls w @ OpenFile p # r" "list_all (relay_call i n p) r"
      using send_file_calls by blast
    with Some False show ?thesis
      by (intro exI [of _ "OpenFile p # r"]) (simp add: when_downloaded_def relay_call_def)
  qed
qed



subsection \<open>The batch processor\<close>

text \<open>A run of the loop that no exception leaves is the loop of the specification.\<close>

lemma batch_item_cases:
  "batch_item ev self chat_id n i link w =
     (let a = reply_text ev (Downloading i n) w;
          D = download_from_public_link ev self link chat_id a;
          r = when_downloaded (fst D) (send_file ev (CaptionItem i n) (ErrorSendingFileNo i)) (snd D)
      in if raised a \<noteq> None then a
         else if raised (snd D) \<noteq> None then snd D
         else if raised r \<noteq> None then r
         else issue (Sleep 2) r)"
  by (simp add: batch_item_def unless_raised_def case_prod_beta Let_def)






lemma orchestrator_calls_no_reply:
  "list_all (orchestrator_call self link) d \<Longrightarrow> ReplyText m \<notin> set d \<and> Sleep k \<notin> set d"
  by (auto simp: list_all_iff orchestrator_call_def)

lemma relay_calls_no_summary:
  "list_all (relay_call i n p) r \<Longrightarrow> ReplyText BatchCompleted \<notin> set r \<and> Sleep k \<notin> set r"
  by (auto simp: list_all_iff relay_call_def)





text \<open>When the announcement, the edit of the \<open>except\<close> clause or the error reply of an
  item raises, the item ends there, without its delay, and it is the last one.\<close>

lemma batch_item_calls:
  "\<exists>cs. calls (batch_item ev self chat_id n i link w) = calls w @ cs \<and>
        ReplyText BatchCompleted \<notin> set cs \<and>
        (raised (batch_item ev self chat_id n i link w) \<noteq> None \<longrightarrow> Sleep 2 \<notin> set cs)"
proof -
  let ?a = "reply_text ev (Downloading i n) w"
  let ?D = "download_from_public_link ev self link chat_id ?a"
  let ?r = "when_downloaded (fst ?D) (send_file ev (CaptionItem i n) (ErrorSendingFileNo i)) (snd ?D)"
  obtain d where d: "calls (snd ?D) = calls ?a @ SendMessage chat_id (ProcessingLink link) # d"
    "list_all (orchestrator_call self link) d"
    using download_calls [of ev self link chat_id ?a] by blast
  obtain r where r: "calls ?r = calls (snd ?D) @ r"
    "case fst ?D of None \<Rightarrow> r = []
     | Some p \<Rightarrow> if p = [] then r = []
                 else r \<noteq> [] \<and> hd r = OpenFile p \<and> list_all (relay_call i n p) r"
    using relay_calls [of "fst ?D" ev i n "snd ?D"] by blast
  have no_d: "ReplyText BatchCompleted \<notin> set d" "Sleep 2 \<notin> set d"
    using d(2) orchestrator_calls_no_reply by blast+
  have no_r: "ReplyText BatchCompleted \<notin> set r \<and> Sleep 2 \<notin> set r"
    using r(2) relay_calls_no_summary [of i n _ r]
    by (cases "fst ?D") (auto split: if_splits)
  consider (announce) "raised ?a \<noteq> None"
    | (download) "raised ?a = None" "raised (snd ?D) \<noteq> None"
    | (relay) "raised ?a = None" "raised (snd ?D) = None" "raised ?r \<noteq> None"
    | (delay) "raised ?a = None" "raised (snd ?D) = None" "raised ?r = None"
    by blast
  then show ?thesis
  proof cases
    case announce
    then have "batch_item ev self chat_id n i link w = ?a"
      by (simp add: batch_item_cases Let_def)
    then show ?thesis
      by (intro exI [of _ "[ReplyText (Downloading i n)]"]) simp
  next
    case download
    then have "batch_item ev self chat_id n i link w = snd ?D"
      by (simp add: batch_item_cases Let_def)
    with d(1) no_d show ?thesis
      by (intro exI [of _ "ReplyText (Downloading i n) #
            SendMessage chat_id (ProcessingLink link) # d"]) simp
  next
    case relay
    then have "batch_item ev self chat_id n i link w = ?r"
      by (simp add: batch_item_cases Let_def)
    with d(1) r(1) no_d no_r show ?thesis
      by (intro exI [of _ "ReplyText (Downloading i n) #
            SendMessage chat_id (ProcessingLink link) # d @ r"]) simp
  next
    case delay
    then have "batch_item ev self chat_id n i link w = issue (Sleep 2) ?r"
      by (simp add: batch_item_cases Let_def)
    with d(1) r(1) no_d no_r delay(3) show ?thesis
      by (intro exI [of _ "ReplyText (Downloading i n) #
            SendMessage chat_id (ProcessingLink link) # d @ r @ [Sleep 2]"]) simp
  qed
qed

lemma batch_loop_calls:
  "\<exists>cs. calls (batch_loop ev self chat_id n i links w) = calls w @ cs \<and>
        ReplyText BatchCompleted \<notin> set cs"
proof (induction links arbitrary: i w)
  case Nil
  then show ?case by simp
next
  case (Cons link rest)
  let ?w1 = "batch_item ev self chat_id n i link w"
  obtain cs where cs: "calls ?w1 = calls w @ cs" "ReplyText BatchCompleted \<notin> set cs"
    using batch_item_calls [of ev self chat_id n i link w] by blast
  show ?case
  proof (cases "raised ?w1")
    case None
    obtain cs' where "calls (batch_loop ev self chat_id n (Suc i) rest ?w1) = calls ?w1 @ cs'"
      "ReplyText BatchCompleted \<notin> set cs'"
      using Cons.IH [of "Suc i" ?w1] by blast
    with None cs show ?thesis
      by (intro exI [of _ "cs @ cs'"]) simp
  next
    case (Some e)
    with cs show ?thesis
      by (intro exI [of _ cs]) simp
  qed
qed








text \<open>Lines 196-207 when the calls up to \<open>open\<close> return: the read raises if the bytes
  do not decode, and the temporary file stays; otherwise \<open>os.remove\<close> is the next call,
  and once it returns the handler goes on with the links.\<close>

lemma handle_document_opened:
  assumes "user_id \<in> set AUTHORIZED_USERS"
    and "text_document doc = Inr True"
    and "list_opened ev doc w"
  shows "decode ev (content doc) = Inl e \<Longrightarrow>
           handle_document ev self user_id chat_id doc w = (opened_world doc w)\<lparr>raised := Some e\<rparr>"
    and "decode ev (content doc) = Inr decoded \<Longrightarrow>
         remove_raises ev (opened_world doc w) (temp_name doc) = None \<Longrightarrow>
           handle_document ev self user_id chat_id doc w =
             process_links ev self chat_id (read_links (file_lines decoded)) (removed_world doc w)"
    and "decode ev (content doc) = Inr decoded \<Longrightarrow>
         remove_raises ev (opened_world doc w) (temp_name doc) = Some e \<Longrightarrow>
           handle_document ev self user_id chat_id doc w =
             (issue (RemoveFile (temp_name doc)) (opened_world doc w))\<lparr>raised := Some e\<rparr>"
  using assms
  by (simp_all add: handle_document_def Let_def get_file_def download_to_drive_def
      read_lines_def remove_file_def raise_from_def list_opened_def opened_world_def
      removed_world_def temp_name_def issue_def)







subsection \<open>Parsing the list of links\<close>

lemma isspace_newline: "isspace (CHR 0x0A)"
  by (simp add: isspace_def)

lemma not_isspace_h: "\<not> isspace CHR ''h''"
  by (simp add: isspace_def)

lemma strip_eq_Nil_iff: "strip s = [] \<longleftrightarrow> (\<forall>c \<in> set s. isspace c)"
proof
  assume "strip s = []"
  then have "\<forall>c \<in> set (dropWhile isspace s). isspace c"
    by (simp add: strip_def)
  then have "dropWhile isspace s = []"
    by (metis hd_dropWhile hd_in_set)
  then show "\<forall>c \<in> set s. isspace c"
    by simp
next
  assume "\<forall>c \<in> set s. isspace c"
  then have "dropWhile isspace s = []"
    by simp
  then show "strip s = []"
    unfolding strip_def by (simp del: dropWhile_eq_Nil_conv)
qed

lemma strip_valid_nonempty: "startswith l ''https://mega.nz/'' \<Longrightarrow> strip l \<noteq> []"
  by (auto simp: strip_eq_Nil_iff startswith_iff_append not_isspace_h)

lemma read_links_eq: "read_links ls = map strip (filter (\<lambda>l. startswith l ''https://mega.nz/'') ls)"
  by (induction ls) (auto simp: strip_valid_nonempty)

lemma strip_snoc_space: "isspace c \<Longrightarrow> strip (l @ [c]) = strip l"
proof (cases "\<forall>x \<in> set l. isspace x")
  case True
  assume "isspace c"
  with True have "strip (l @ [c]) = []" "strip l = []"
    by (simp_all add: strip_eq_Nil_iff)
  then show ?thesis by simp
next
  case False
  assume c: "isspace c"
  from False obtain x where "x \<in> set l" "\<not> isspace x"
    by blast
  then have "dropWhile isspace (l @ [c]) = dropWhile isspace l @ [c]"
    by (rule dropWhile_append1)
  with c show ?thesis by (simp add: strip_def)
qed

lemma startswith_snoc_newline:
  "startswith (l @ [CHR 0x0A]) ''https://mega.nz/'' \<longleftrightarrow> startswith l ''https://mega.nz/''"
  unfolding startswith_iff_prefix prefix_snoc
  by (auto simp: append_eq_Cons_conv Cons_eq_append_conv)

text \<open>Reading in text mode changes nothing in a text without carriage returns, and the
  lines read make up the text that the translation of the newlines gives.\<close>

lemma universal_newlines_id: "CHR 0x0D \<notin> set s \<Longrightarrow> universal_newlines s = s"
  by (induction s rule: universal_newlines.induct) auto

lemma concat_lines_from: "concat (lines_from cur s) = cur @ s"
  by (induction s arbitrary: cur) auto

lemma lines_from_line:
  "CHR 0x0A \<notin> set l \<Longrightarrow> lines_from cur (l @ CHR 0x0A # rest) = (cur @ l @ [CHR 0x0A]) # lines_from [] rest"
  by (induction l arbitrary: cur) auto

lemma lines_from_text_of_lines:
  "\<forall>l \<in> set ls. CHR 0x0A \<notin> set l \<Longrightarrow>
     lines_from [] (text_of_lines ls) = map (\<lambda>l. l @ [CHR 0x0A]) ls"
  unfolding text_of_lines_def
  by (induction ls) (simp_all add: lines_from_line)

lemma file_lines_text_of_lines:
  assumes "\<forall>l \<in> set ls. CHR 0x0A \<notin> set l \<and> CHR 0x0D \<notin> set l"
  shows "file_lines (text_of_lines ls) = map (\<lambda>l. l @ [CHR 0x0A]) ls"
proof -
  have "CHR 0x0D \<notin> set (text_of_lines ls)"
    using assms by (auto simp: text_of_lines_def)
  then have "universal_newlines (text_of_lines ls) = text_of_lines ls"
    by (rule universal_newlines_id)
  with assms show ?thesis
    by (simp add: file_lines_def lines_from_text_of_lines)
qed

lemma read_links_text_of_lines:
  assumes "\<forall>l \<in> set ls. CHR 0x0A \<notin> set l \<and> CHR 0x0D \<notin> set l"
  shows "read_links (file_lines (text_of_lines ls)) =
           map strip (filter (\<lambda>l. l \<noteq> [] \<and> startswith l ''https://mega.nz/'') ls)"
proof -
  have valid: "(\<lambda>l. l \<noteq> [] \<and> startswith l ''https://mega.nz/'') = (\<lambda>l. startswith l ''https://mega.nz/'')"
    by (auto simp: fun_eq_iff)
  have "read_links (file_lines (text_of_lines ls)) =
      map strip (filter (\<lambda>l. startswith l ''https://mega.nz/'') (map (\<lambda>l. l @ [CHR 0x0A]) ls))"
    using assms by (simp add: file_lines_text_of_lines read_links_eq)
  also have "\<dots> = map strip (filter (\<lambda>l. startswith l ''https://mega.nz/'') ls)"
    by (induction ls) (simp_all add: startswith_snoc_newline strip_snoc_space isspace_newline)
  finally show ?thesis by (simp only: valid)
qed

text \<open>The first call of \<open>process_links\<close> is the reply that reports the batch.\<close>

lemma process_links_first_call:
  "\<exists>rest. calls (process_links ev self chat_id links w) =
      calls w @ ReplyText (if links = [] then NoValidLinks else FoundLinks (length links)) # rest"
proof (cases "links = []")
  case True
  then show ?thesis by (simp add: process_links_def)
next
  case False
  let ?f = "reply_text ev (FoundLinks (length links)) w"
  let ?l = "batch_loop ev self chat_id (length links) 1 links ?f"
  obtain cs where cs: "calls ?l = calls ?f @ cs"
    using batch_loop_calls [of ev self chat_id "length links" 1 links ?f] by blast
  show ?thesis
  proof (cases "raised ?f = None")
    case f: True
    show ?thesis
    proof (cases "raised ?l = None")
      case True
      with f False cs show ?thesis
        by (intro exI [of _ "cs @ [ReplyText BatchCompleted]"]) (simp add: process_links_def)
    next
      case l: False
      with f False cs show ?thesis
        by (intro exI [of _ cs]) (auto simp: process_links_def)
    qed
  next
    case f: False
    with False show ?thesis
      by (intro exI [of _ "[]"]) (auto simp: process_links_def)
  qed
qed

lemma opened_world_facts [simp]:
  "calls (opened_world doc w) =
     calls w @ [GetFile (file_id doc), DownloadToDrive (temp_name doc), OpenFile (temp_name doc)]"
  "files (opened_world doc w) = (files w)(temp_name doc \<mapsto> content doc)"
  "raised (opened_world doc w) = raised w"
  by (simp_all add: opened_world_def)

lemma removed_world_facts [simp]:
  "calls (removed_world doc w) =
     calls w @ [GetFile (file_id doc), DownloadToDrive (temp_name doc), OpenFile (temp_name doc),
                RemoveFile (temp_name doc)]"
  "files (removed_world doc w) = (files w)(temp_name doc := None)"
  "raised (removed_world doc w) = raised w"
  by (simp_all add: removed_world_def)

text \<open>
  C5, as amended. For every text that the uploaded file decodes to, the batch is made of
  the lines of that text, as reading in text mode yields them (a line ends at a line feed,
  a carriage return or both), that pass the link validator: in their order, with
  duplicates kept, each with its surrounding whitespace stripped. Such a line is never
  empty, and for lines without whitespace at their ends the batch is exactly the non-empty
  valid lines. For the lines \<open>""\<close>, \<open>https://mega.nz/file/AAA\<close>, \<open>not-a-link\<close>,
  \<open>https://mega.nz/file/BBB\<close> the batch is the two links in that order. In
  \<open>handle_document\<close>, once the temporary file is written and opened, \<open>os.remove\<close> is the
  call right after the read: when it returns the file is gone before the first reply, and
  the handler goes on with the batch; when it raises the file stays. A file that does not
  decode makes the read raise: the handler is left before \<open>os.remove\<close>, with the
  temporary file still there and no reply.
\<close>

theorem batch_parsing:
  "read_links (file_lines decoded) =
     map strip (filter (\<lambda>l. startswith l ''https://mega.nz/'') (file_lines decoded)) \<and>
   concat (file_lines decoded) = universal_newlines decoded \<and>
   ((\<forall>l \<in> set ls. CHR 0x0A \<notin> set l \<and> CHR 0x0D \<notin> set l) \<longrightarrow>
      read_links (file_lines (text_of_lines ls)) =
        map strip (filter (\<lambda>l. l \<noteq> [] \<and> startswith l ''https://mega.nz/'') ls)) \<and>
   ((\<forall>l \<in> set ls. CHR 0x0A \<notin> set l \<and> CHR 0x0D \<notin> set l \<and> strip l = l) \<longrightarrow>
      read_links (file_lines (text_of_lines ls)) = claimed_batch ls) \<and>
   read_links (file_lines (text_of_lines
      [[], ''https://mega.nz/file/AAA'', ''not-a-link'', ''https://mega.nz/file/BBB''])) =
     [''https://mega.nz/file/AAA'', ''https://mega.nz/file/BBB''] \<and>
   read_links (file_lines (''https://mega.nz/file/AAA'' @ [CHR 0x0D, CHR 0x0A] @
      ''https://mega.nz/file/BBB'' @ [CHR 0x0D] @ ''https://mega.nz/file/CCC'')) =
     [''https://mega.nz/file/AAA'', ''https://mega.nz/file/BBB'', ''https://mega.nz/file/CCC''] \<and>
   (user_id \<in> set AUTHORIZED_USERS \<and> text_document doc = Inr True \<and> list_opened ev doc w \<longrightarrow>
      (decode ev (content doc) = Inr decoded \<and>
       remove_raises ev (opened_world doc w) (temp_name doc) = None \<longrightarrow>
         handle_document ev self user_id chat_id doc w =
           process_links ev self chat_id (read_links (file_lines decoded)) (removed_world doc w) \<and>
         files (removed_world doc w) (temp_name doc) = None \<and>
         (\<exists>rest. new_calls w (handle_document ev self user_id chat_id doc w) =
            [GetFile (file_id doc), DownloadToDrive (temp_name doc), OpenFile (temp_name doc),
             RemoveFile (temp_name doc),
             ReplyText (if read_links (file_lines decoded) = [] then NoValidLinks
                        else FoundLinks (length (read_links (file_lines decoded))))] @ rest)) \<and>
      (decode ev (content doc) = Inr decoded \<and>
       remove_raises ev (opened_world doc w) (temp_name doc) = Some e \<longrightarrow>
         new_calls w (handle_document ev self user_id chat_id doc w) =
           [GetFile (file_id doc), DownloadToDrive (temp_name doc), OpenFile (temp_name doc),
            RemoveFile (temp_name doc)] \<and>
         files (handle_document ev self user_id chat_id doc w) (temp_name doc) =
           Some (content doc) \<and>
         raised (handle_document ev self user_id chat_id doc w) = Some e) \<and>
      (decode ev (content doc) = Inl e \<longrightarrow>
         new_calls w (handle_document ev self user_id chat_id doc w) =
           [GetFile (file_id doc), DownloadToDrive (temp_name doc), OpenFile (temp_name doc)] \<and>
         files (handle_document ev self user_id chat_id doc w) (temp_name doc) =
           Some (content doc) \<and>
         raised (handle_document ev self user_id chat_id doc w) = Some e))"
proof -
  have lines: "read_links (file_lines decoded) =
      map strip (filter (\<lambda>l. startswith l ''https://mega.nz/'') (file_lines decoded))"
    by (rule read_links_eq)
  have whole: "concat (file_lines decoded) = universal_newlines decoded"
    by (simp add: file_lines_def concat_lines_from)
  have stripped: "(\<forall>l \<in> set ls. CHR 0x0A \<notin> set l \<and> CHR 0x0D \<notin> set l) \<longrightarrow>
      read_links (file_lines (text_of_lines ls)) =
        map strip (filter (\<lambda>l. l \<noteq> [] \<and> startswith l ''https://mega.nz/'') ls)"
    using read_links_text_of_lines by blast
  have exact: "(\<forall>l \<in> set ls. CHR 0x0A \<notin> set l \<and> CHR 0x0D \<notin> set l \<and> strip l = l) \<longrightarrow>
      read_links (file_lines (text_of_lines ls)) = claimed_batch ls"
  proof
    assume clean: "\<forall>l \<in> set ls. CHR 0x0A \<notin> set l \<and> CHR 0x0D \<notin> set l \<and> strip l = l"
    then have "read_links (file_lines (text_of_lines ls)) =
          map strip (filter (\<lambda>l. l \<noteq> [] \<and> startswith l ''https://mega.nz/'') ls)"
      by (intro read_links_text_of_lines) blast
    also have "\<dots> = filter (\<lambda>l. l \<noteq> [] \<and> startswith l ''https://mega.nz/'') ls"
      using clean by (intro map_idI) simp
    finally show "read_links (file_lines (text_of_lines ls)) = claimed_batch ls"
      by (simp add: claimed_batch_def)
  qed
  have example: "read_links (file_lines (text_of_lines
      [[], ''https://mega.nz/file/AAA'', ''not-a-link'', ''https://mega.nz/file/BBB''])) =
     [''https://mega.nz/file/AAA'', ''https://mega.nz/file/BBB'']"
    by code_simp
  have newlines: "read_links (file_lines (''https://mega.nz/file/AAA'' @ [CHR 0x0D, CHR 0x0A] @
      ''https://mega.nz/file/BBB'' @ [CHR 0x0D] @ ''https://mega.nz/file/CCC'')) =
     [''https://mega.nz/file/AAA'', ''https://mega.nz/file/BBB'', ''https://mega.nz/file/CCC'']"
    by code_simp
  have handler: "user_id \<in> set AUTHORIZED_USERS \<and> text_document doc = Inr True \<and>
      list_opened ev doc w \<longrightarrow>
      (decode ev (content doc) = Inr decoded \<and>
       remove_raises ev (opened_world doc w) (temp_name doc) = None \<longrightarrow>
         handle_document ev self user_id chat_id doc w =
           process_links ev self chat_id (read_links (file_lines decoded)) (removed_world doc w) \<and>
         files (removed_world doc w) (temp_name doc) = None \<and>
         (\<exists>rest. new_calls w (handle_document ev self user_id chat_id doc w) =
            [GetFile (file_id doc), DownloadToDrive (temp_name doc), OpenFile (temp_name doc),
             RemoveFile (temp_name doc),
             ReplyText (if read_links (file_lines decoded) = [] then NoValidLinks
                        else FoundLinks (length (read_links (file_lines decoded))))] @ rest)) \<and>
      (decode ev (content doc) = Inr decoded \<and>
       remove_raises ev (opened_world doc w) (temp_name doc) = Some e \<longrightarrow>
         new_calls w (handle_document ev self user_id chat_id doc w) =
           [GetFile (file_id doc), DownloadToDrive (temp_name doc), OpenFile (temp_name doc),
            RemoveFile (temp_name doc)] \<and>
         files (handle_document ev self user_id chat_id doc w) (temp_name doc) =
           Some (content doc) \<and>
         raised (handle_document ev self user_id chat_id doc w) = Some e) \<and>
      (decode ev (content doc) = Inl e \<longrightarrow>
         new_calls w (handle_document ev self user_id chat_id doc w) =
           [GetFile (file_id doc), DownloadToDrive (temp_name doc), OpenFile (temp_name doc)] \<and>
         files (handle_document ev self user_id chat_id doc w) (temp_name doc) =
           Some (content doc) \<and>
         raised (handle_document ev self user_id chat_id doc w) = Some e)"
  proof (intro impI conjI)
    assume opened: "user_id \<in> set AUTHORIZED_USERS \<and> text_document doc = Inr True \<and>
      list_opened ev doc w"
    note doc = handle_document_opened [of user_id doc ev w, where self = self and chat_id = chat_id]
    {
      assume removed: "decode ev (content doc) = Inr decoded \<and>
        remove_raises ev (opened_world doc w) (temp_name doc) = None"
      with opened show run: "handle_document ev self user_id chat_id doc w =
          process_links ev self chat_id (read_links (file_lines decoded)) (removed_world doc w)"
        using doc(2) by blast
      show "files (removed_world doc w) (temp_name doc) = None"
        by simp
      obtain rest where "calls (process_links ev self chat_id (read_links (file_lines decoded))
            (removed_world doc w)) =
          calls (removed_world doc w) @
          ReplyText (if read_links (file_lines decoded) = [] then NoValidLinks
                     else FoundLinks (length (read_links (file_lines decoded)))) # rest"
        using process_links_first_call by blast
      then show "\<exists>rest. new_calls w (handle_document ev self user_id chat_id doc w) =
            [GetFile (file_id doc), DownloadToDrive (temp_name doc), OpenFile (temp_name doc),
             RemoveFile (temp_name doc),
             ReplyText (if read_links (file_lines decoded) = [] then NoValidLinks
                        else FoundLinks (length (read_links (file_lines decoded))))] @ rest"
        unfolding run by (intro exI [of _ rest]) (simp add: new_calls_def)
    }
    {
      assume kept: "decode ev (content doc) = Inr decoded \<and>
        remove_raises ev (opened_world doc w) (temp_name doc) = Some e"
      with opened have run: "handle_document ev self user_id chat_id doc w =
          (issue (RemoveFile (temp_name doc)) (opened_world doc w))\<lparr>raised := Some e\<rparr>"
        using doc(3) by blast
      show "new_calls w (handle_document ev self user_id chat_id doc w) =
           [GetFile (file_id doc), DownloadToDrive (temp_name doc), OpenFile (temp_name doc),
            RemoveFile (temp_name doc)]"
        unfolding run by (simp add: new_calls_def)
      show "files (handle_document ev self user_id chat_id doc w) (temp_name doc) =
           Some (content doc)"
        unfolding run by simp
      show "raised (handle_document ev self user_id chat_id doc w) = Some e"
        unfolding run by simp
    }
    {
      assume "decode ev (content doc) = Inl e"
      with opened have run: "handle_document ev self user_id chat_id doc w =
          (opened_world doc w)\<lparr>raised := Some e\<rparr>"
        using doc(1) by blast
      show "new_calls w (handle_document ev self user_id chat_id doc w) =
           [GetFile (file_id doc), DownloadToDrive (temp_name doc), OpenFile (temp_name doc)]"
        unfolding run by (simp add: new_calls_def)
      show "files (handle_document ev self user_id chat_id doc w) (temp_name doc) =
           Some (content doc)"
        unfolding run by simp
      show "raised (handle_document ev self user_id chat_id doc w) = Some e"
        unfolding run by simp
    }
  qed
  from lines whole stripped exact example newlines handler show ?thesis
    by (intro conjI)
qed


theorem batch_parsing_witness:
  "read_links (file_lines (text_of_lines
      [''https://mega.nz/file/AAA '', ''x'', ''https://mega.nz/file/AAA ''])) =
     [''https://mega.nz/file/AAA'', ''https://mega.nz/file/AAA''] \<and>
   read_links (file_lines (text_of_lines
      [[], ''https://mega.nz/file/AAA'', ''not-a-link'', ''https://mega.nz/file/BBB''])) =
     claimed_batch [[], ''https://mega.nz/file/AAA'', ''not-a-link'', ''https://mega.nz/file/BBB''] \<and>
   handle_document calm_env default_bot 123456789 7 list_document empty_world =
     process_links calm_env default_bot 7
       [''https://mega.nz/file/AAA'', ''https://mega.nz/file/BBB'']
       (removed_world list_document empty_world) \<and>
   files (removed_world list_document empty_world) ''temp_F1.txt'' = None \<and>
   (\<exists>rest. new_calls empty_world
       (handle_document calm_env default_bot 123456789 7 list_document empty_world) =
       [GetFile ''F1'', DownloadToDrive ''temp_F1.txt'', OpenFile ''temp_F1.txt'',
        RemoveFile ''temp_F1.txt'', ReplyText (FoundLinks 2)] @ rest) \<and>
   files (handle_document (calm_env\<lparr>remove_raises := (\<lambda>w p. Some (Error ''Permission denied''))\<rparr>)
            default_bot 123456789 7 list_document empty_world) ''temp_F1.txt'' =
     Some (content list_document) \<and>
   new_calls empty_world
     (handle_document ascii_env default_bot 123456789 7 binary_document empty_world) =
     [GetFile ''F2'', DownloadToDrive ''temp_F2.txt'', OpenFile ''temp_F2.txt''] \<and>
   files (handle_document ascii_env default_bot 123456789 7 binary_document empty_world)
     ''temp_F2.txt'' = Some (content binary_document) \<and>
   raised (handle_document ascii_env default_bot 123456789 7 binary_document empty_world) =
     Some (Error ''ascii codec cannot decode'')"
proof -
  let ?blanks = "[''https://mega.nz/file/AAA '', ''x'', ''https://mega.nz/file/AAA '']"
  let ?example = "[[], ''https://mega.nz/file/AAA'', ''not-a-link'', ''https://mega.nz/file/BBB'']"
  let ?locked = "calm_env\<lparr>remove_raises := (\<lambda>w p. Some (Error ''Permission denied''))\<rparr>"
  have blanks: "\<forall>l \<in> set ?blanks. CHR 0x0A \<notin> set l \<and> CHR 0x0D \<notin> set l"
    by simp
  have stripped: "map strip (filter (\<lambda>l. l \<noteq> [] \<and> startswith l ''https://mega.nz/'') ?blanks) =
      [''https://mega.nz/file/AAA'', ''https://mega.nz/file/AAA'']"
    by code_simp
  have "list_all (\<lambda>l. CHR 0x0A \<notin> set l \<and> CHR 0x0D \<notin> set l \<and> strip l = l) ?example"
    by code_simp
  then have example: "\<forall>l \<in> set ?example. CHR 0x0A \<notin> set l \<and> CHR 0x0D \<notin> set l \<and> strip l = l"
    by (simp only: list_all_iff)
  have links: "read_links (file_lines (content list_document)) =
      [''https://mega.nz/file/AAA'', ''https://mega.nz/file/BBB'']"
    by code_simp
  have names: "temp_name list_document = ''temp_F1.txt''" "file_id list_document = ''F1''"
    "temp_name binary_document = ''temp_F2.txt''" "file_id binary_document = ''F2''"
    by (simp_all add: temp_name_def list_document_def binary_document_def)
  have list: "text_document list_document = Inr True"
    "list_opened calm_env list_document empty_world"
    "decode calm_env (content list_document) = Inr (content list_document)"
    "remove_raises calm_env (opened_world list_document empty_world) (temp_name list_document) = None"
    by (simp_all add: text_document_def list_document_def list_opened_def calm_env_def
        empty_world_def)
  have locked: "list_opened ?locked list_document empty_world"
    "decode ?locked (content list_document) = Inr (content list_document)"
    "remove_raises ?locked (opened_world list_document empty_world) (temp_name list_document) =
       Some (Error ''Permission denied'')"
    by (simp_all add: list_opened_def calm_env_def empty_world_def)
  have "text_document binary_document = Inr True"
    by code_simp
  moreover have "list_opened ascii_env binary_document empty_world"
    by (simp add: list_opened_def ascii_env_def calm_env_def empty_world_def)
  moreover have "decode ascii_env (content binary_document) = Inl (Error ''ascii codec cannot decode'')"
    by code_simp
  ultimately have binary: "text_document binary_document = Inr True"
    "list_opened ascii_env binary_document empty_world"
    "decode ascii_env (content binary_document) = Inl (Error ''ascii codec cannot decode'')"
    by blast+
  have "read_links (file_lines (text_of_lines ?blanks)) =
      map strip (filter (\<lambda>l. l \<noteq> [] \<and> startswith l ''https://mega.nz/'') ?blanks)"
    using blanks
    by (rule batch_parsing [where ls = ?blanks, THEN conjunct2, THEN conjunct2, THEN conjunct1,
          THEN mp])
  with stripped have a: "read_links (file_lines (text_of_lines ?blanks)) =
      [''https://mega.nz/file/AAA'', ''https://mega.nz/file/AAA'']"
    by (simp only:)
  have b: "read_links (file_lines (text_of_lines ?example)) = claimed_batch ?example"
    using example
    by (rule batch_parsing [where ls = ?example, THEN conjunct2, THEN conjunct2, THEN conjunct2,
          THEN conjunct1, THEN mp])
  have "123456789 \<in> set AUTHORIZED_USERS \<and> text_document list_document = Inr True \<and>
      list_opened calm_env list_document empty_world"
    using authorized_example list(1,2) by blast
  note run = batch_parsing [where user_id = 123456789 and doc = list_document and ev = calm_env
      and w = empty_world and decoded = "content list_document" and self = default_bot
      and chat_id = 7, THEN conjunct2, THEN conjunct2, THEN conjunct2, THEN conjunct2,
      THEN conjunct2, THEN conjunct2, THEN mp, OF this, THEN conjunct1, THEN mp, OF conjI,
      OF list(3,4)]
  have c1: "handle_document calm_env default_bot 123456789 7 list_document empty_world =
      process_links calm_env default_bot 7
        [''https://mega.nz/file/AAA'', ''https://mega.nz/file/BBB'']
        (removed_world list_document empty_world)"
    using run [THEN conjunct1] by (simp only: links)
  have c2: "files (removed_world list_document empty_world) ''temp_F1.txt'' = None"
    using run [THEN conjunct2, THEN conjunct1] by (simp only: names)
  have c3: "\<exists>rest. new_calls empty_world
       (handle_document calm_env default_bot 123456789 7 list_document empty_world) =
       [GetFile ''F1'', DownloadToDrive ''temp_F1.txt'', OpenFile ''temp_F1.txt'',
        RemoveFile ''temp_F1.txt'', ReplyText (FoundLinks 2)] @ rest"
    using run [THEN conjunct2, THEN conjunct2] by (simp add: links names numeral_2_eq_2)
  have "123456789 \<in> set AUTHORIZED_USERS \<and> text_document list_document = Inr True \<and>
      list_opened ?locked list_document empty_world"
    using authorized_example list(1) locked(1) by blast
  note kept = batch_parsing [where user_id = 123456789 and doc = list_document and ev = ?locked
      and w = empty_world and decoded = "content list_document" and self = default_bot
      and chat_id = 7 and e = "Error ''Permission denied''", THEN conjunct2, THEN conjunct2,
      THEN conjunct2, THEN conjunct2, THEN conjunct2, THEN conjunct2, THEN mp, OF this,
      THEN conjunct2, THEN conjunct1, THEN mp, OF conjI, OF locked(2,3)]
  have d: "files (handle_document ?locked default_bot 123456789 7 list_document empty_world)
      ''temp_F1.txt'' = Some (content list_document)"
    using kept [THEN conjunct2, THEN conjunct1] by (simp only: names)
  have "123456789 \<in> set AUTHORIZED_USERS \<and> text_document binary_document = Inr True \<and>
      list_opened ascii_env binary_document empty_world"
    using authorized_example binary(1,2) by blast
  note undecoded = batch_parsing [where user_id = 123456789 and doc = binary_document
      and ev = ascii_env and w = empty_world and self = default_bot and chat_id = 7
      and e = "Error ''ascii codec cannot decode''", THEN conjunct2, THEN conjunct2,
      THEN conjunct2, THEN conjunct2, THEN conjunct2, THEN conjunct2, THEN mp, OF this,
      THEN conjunct2, THEN conjunct2, THEN mp, OF binary(3)]
  have e1: "new_calls empty_world
       (handle_document ascii_env default_bot 123456789 7 binary_document empty_world) =
       [GetFile ''F2'', DownloadToDrive ''temp_F2.txt'', OpenFile ''temp_F2.txt'']"
    using undecoded [THEN conjunct1] by (simp only: names)
  have e2: "files (handle_document ascii_env default_bot 123456789 7 binary_document empty_world)
       ''temp_F2.txt'' = Some (content binary_document)"
    using undecoded [THEN conjunct2, THEN conjunct1] by (simp only: names)
  have e3: "raised (handle_document ascii_env default_bot 123456789 7 binary_document empty_world) =
       Some (Error ''ascii codec cannot decode'')"
    using undecoded [THEN conjunct2, THEN conjunct2] .
  from a b c1 c2 c3 d e1 e2 e3 show ?thesis
    by (intro conjI)
qed

text \<open>The claim as stated fails on a valid line that ends with a blank: the batch holds
  the line without the blank, not the line. It also fails on an upload that does not
  decode: the temporary file is never removed.\<close>

theorem batch_parsing_counterexample:
  "read_links (file_lines (text_of_lines [''https://mega.nz/file/AAA ''])) =
     [''https://mega.nz/file/AAA''] \<and>
   claimed_batch [''https://mega.nz/file/AAA ''] = [''https://mega.nz/file/AAA ''] \<and>
   read_links (file_lines (text_of_lines [''https://mega.nz/file/AAA ''])) \<noteq>
     claimed_batch [''https://mega.nz/file/AAA ''] \<and>
   new_calls empty_world
     (handle_document ascii_env default_bot 123456789 7 binary_document empty_world) =
     [GetFile ''F2'', DownloadToDrive ''temp_F2.txt'', OpenFile ''temp_F2.txt''] \<and>
   files (handle_document ascii_env default_bot 123456789 7 binary_document empty_world)
     ''temp_F2.txt'' = Some [CHR 0xFF, CHR 0xFE, CHR 0x00]"
  by code_simp


end
